theory Spec2Isabelle
  imports Complex_Main "HOL-Library.Multiset"
begin

section \<open>Data model\<close>

text \<open>
  The tables of the relational schema, one record per row type, with the columns the
  derivations and the scheduled-payment lifecycle read or write. A table is the list of
  its rows in storage order. Amounts are the \<open>real\<close> columns of the schema and are
  modelled as exact real numbers (rounding of IEEE-754 doubles is outside the model).
  Identifiers, dates and timestamps are the \<open>text\<close> columns, modelled as strings.
  A handler takes the tables it reads as arguments and returns what it responds, together
  with the tables it writes. The \<open>orderBy\<close> clauses of the list queries only permute
  a response and are left out: a list response is in storage order.
\<close>

datatype tx_type = Income | Expense | DebtPayment | GoalContribution | LoanPayment

record account =
  acc_id :: string
  acc_userId :: string
  initialBalance :: real
  isActive :: bool
  includeInTotal :: bool

record txn =
  tx_id :: string
  tx_userId :: string
  tx_accountId :: string
  tx_categoryId :: "string option"
  tx_type :: tx_type
  tx_amount :: real
  tx_description :: "string option"
  tx_date :: string
  tx_debtId :: "string option"
  tx_loanId :: "string option"
  tx_goalId :: "string option"
  tx_createdAt :: string
  tx_updatedAt :: string

record transfer =
  tr_id :: string
  tr_userId :: string
  fromAccountId :: string
  toAccountId :: string
  tr_amount :: real
  fee :: "real option"

datatype error = NotFound | InvalidTransition | ServerError

section \<open>Ledger aggregation\<close>

text \<open>\<open>COALESCE(SUM(amount), 0)\<close> over the rows a \<open>where\<close> clause selects.\<close>

definition sum_amount :: "(txn \<Rightarrow> bool) \<Rightarrow> txn list \<Rightarrow> real" where
  "sum_amount cond rows = sum_list (map tx_amount (filter cond rows))"

definition sum_transfer_amount :: "(transfer \<Rightarrow> bool) \<Rightarrow> transfer list \<Rightarrow> real" where
  "sum_transfer_amount cond rows = sum_list (map tr_amount (filter cond rows))"

text \<open>\<open>COALESCE(SUM(amount + COALESCE(fee, 0)), 0)\<close>.\<close>

definition sum_transfer_amount_fee :: "(transfer \<Rightarrow> bool) \<Rightarrow> transfer list \<Rightarrow> real" where
  "sum_transfer_amount_fee cond rows =
     sum_list (map (\<lambda>t. tr_amount t + (case fee t of None \<Rightarrow> 0 | Some f \<Rightarrow> f)) (filter cond rows))"

text \<open>The JavaScript idiom \<open>result?.total || 0\<close> on a number: a falsy total (zero) gives 0.\<close>

definition or_zero :: "real \<Rightarrow> real" where
  "or_zero x = (if x = 0 then 0 else x)"

section \<open>Account reads (routes/accounts.ts)\<close>

record account_stats =
  totalIncome :: real
  totalExpense :: real
  transfersIn :: real
  transfersOut :: real

record account_view =
  av_account :: account
  av_balance :: real
  av_stats :: account_stats

text \<open>The body of the \<open>accountsList.map\<close> callback of \<open>GET /accounts\<close>.\<close>

definition account_with_balance ::
  "txn list \<Rightarrow> transfer list \<Rightarrow> string \<Rightarrow> account \<Rightarrow> account_view" where
  "account_with_balance txs trs userId a =
     (let income = or_zero (sum_amount
            (\<lambda>t. tx_accountId t = acc_id a \<and> tx_userId t = userId \<and> tx_type t = Income) txs);
          expense = or_zero (sum_amount
            (\<lambda>t. tx_accountId t = acc_id a \<and> tx_userId t = userId \<and> tx_type t = Expense) txs);
          tin = or_zero (sum_transfer_amount
            (\<lambda>t. toAccountId t = acc_id a \<and> tr_userId t = userId) trs);
          tout = or_zero (sum_transfer_amount_fee
            (\<lambda>t. fromAccountId t = acc_id a \<and> tr_userId t = userId) trs)
      in \<lparr> av_account = a,
           av_balance = initialBalance a + income - expense + tin - tout,
           av_stats = \<lparr> totalIncome = income, totalExpense = expense,
                        transfersIn = tin, transfersOut = tout \<rparr> \<rparr>)"

record accounts_response =
  ar_accounts :: "account_view list"
  ar_totalBalance :: real
  ar_count :: nat

definition accounts_get_list ::
  "account list \<Rightarrow> txn list \<Rightarrow> transfer list \<Rightarrow> string \<Rightarrow> bool \<Rightarrow> accounts_response" where
  "accounts_get_list accs txs trs userId includeInactive =
     (let accountsList = filter (\<lambda>a. if includeInactive then acc_userId a = userId
                                      else acc_userId a = userId \<and> isActive a) accs;
          accountsWithBalances = map (account_with_balance txs trs userId) accountsList;
          totalBalance = foldl (\<lambda>s v. s + av_balance v) 0
            (filter (\<lambda>v. includeInTotal (av_account v) \<and> isActive (av_account v))
               accountsWithBalances)
      in \<lparr> ar_accounts = accountsWithBalances, ar_totalBalance = totalBalance,
           ar_count = length accountsWithBalances \<rparr>)"

text \<open>\<open>GET /accounts/:id\<close>: the account of that id and owner, with its balance.\<close>

definition accounts_get_one ::
  "account list \<Rightarrow> txn list \<Rightarrow> string \<Rightarrow> string \<Rightarrow> error + (account \<times> real)" where
  "accounts_get_one accs txs userId accountId =
     (case find (\<lambda>a. acc_id a = accountId \<and> acc_userId a = userId) accs of
        None \<Rightarrow> Inl NotFound
      | Some a \<Rightarrow>
          Inr (a, initialBalance a
                  + or_zero (sum_amount (\<lambda>t. tx_accountId t = accountId \<and> tx_userId t = userId
                                              \<and> tx_type t = Income) txs)
                  - or_zero (sum_amount (\<lambda>t. tx_accountId t = accountId \<and> tx_userId t = userId
                                              \<and> tx_type t = Expense) txs)))"

section \<open>Dashboard balance (dashboard route)\<close>

definition calculateAccountBalance :: "txn list \<Rightarrow> string \<Rightarrow> string \<Rightarrow> real \<Rightarrow> real" where
  "calculateAccountBalance txs accountId userId initBal =
     initBal
     + or_zero (sum_amount (\<lambda>t. tx_accountId t = accountId \<and> tx_userId t = userId
                                 \<and> tx_type t = Income) txs)
     - or_zero (sum_amount (\<lambda>t. tx_accountId t = accountId \<and> tx_userId t = userId
                                 \<and> (tx_type t = Expense \<or> tx_type t = DebtPayment
                                      \<or> tx_type t = GoalContribution \<or> tx_type t = LoanPayment)) txs)"

text \<open>
  The account selection and total of \<open>GET /dashboard\<close>. The configuration field
  \<open>balanceAccountIds\<close> is \<open>null\<close> or a list of ids; it restricts the selection only
  when it is a non-empty list.
\<close>

definition dashboard_accounts :: "account list \<Rightarrow> string \<Rightarrow> string list option \<Rightarrow> account list" where
  "dashboard_accounts accs userId balanceAccountIds =
     filter (\<lambda>a. acc_userId a = userId \<and> isActive a \<and>
                 (case balanceAccountIds of
                    None \<Rightarrow> True
                  | Some ids \<Rightarrow> if 0 < length ids then acc_id a \<in> set ids else True)) accs"

definition dashboard_total_balance ::
  "account list \<Rightarrow> txn list \<Rightarrow> string \<Rightarrow> string list option \<Rightarrow> real" where
  "dashboard_total_balance accs txs userId balanceAccountIds =
     foldl (\<lambda>s b. s + b) 0
       (map (\<lambda>a. calculateAccountBalance txs (acc_id a) userId (initialBalance a))
            (dashboard_accounts accs userId balanceAccountIds))"

text \<open>
  The period widgets of the dashboard: \<open>COALESCE(SUM(amount), 0)\<close> and \<open>COUNT(*)\<close> over
  the owner's entries of one type dated within the range; dates are compared as
  strings.
\<close>

fun str_le :: "string \<Rightarrow> string \<Rightarrow> bool" where
  "str_le [] ys = True"
| "str_le (x # xs) [] = False"
| "str_le (x # xs) (y # ys) =
     (if x = y then str_le xs ys else (of_char x :: nat) < of_char y)"

definition period_total :: "txn list \<Rightarrow> string \<Rightarrow> tx_type \<Rightarrow> string \<Rightarrow> string \<Rightarrow> real \<times> nat" where
  "period_total txs userId ty rangeStart rangeEnd =
     (or_zero (sum_amount (\<lambda>t. tx_userId t = userId \<and> tx_type t = ty
                               \<and> str_le rangeStart (tx_date t) \<and> str_le (tx_date t) rangeEnd) txs),
      length (filter (\<lambda>t. tx_userId t = userId \<and> tx_type t = ty
                          \<and> str_le rangeStart (tx_date t) \<and> str_le (tx_date t) rangeEnd) txs))"

section \<open>Rows of one owner\<close>

text \<open>The rows of a table that belong to owner \<open>u\<close>, in storage order.\<close>

definition rows_of :: "('r \<Rightarrow> string) \<Rightarrow> string \<Rightarrow> 'r list \<Rightarrow> 'r list" where
  "rows_of owner u rows = filter (\<lambda>r. owner r = u) rows"

section \<open>The balance formula as the specification words it\<close>

text \<open>
  \<open>currentBalance = initialBalance + incomeSum - debitSum + transfersInSum -
  (transfersOutSum + transfersOutFeeSum)\<close>, with the debit types as a parameter: the
  narrow mode takes \<open>expense\<close> only, the all-outflow mode takes the four outflow types.
\<close>

definition spec_balance ::
  "(tx_type \<Rightarrow> bool) \<Rightarrow> txn list \<Rightarrow> transfer list \<Rightarrow> string \<Rightarrow> account \<Rightarrow> real" where
  "spec_balance debit txs trs userId a =
     initialBalance a
     + sum_list (map tx_amount (filter (\<lambda>t. tx_userId t = userId \<and> tx_accountId t = acc_id a
                                             \<and> tx_type t = Income) txs))
     - sum_list (map tx_amount (filter (\<lambda>t. tx_userId t = userId \<and> tx_accountId t = acc_id a
                                             \<and> debit (tx_type t)) txs))
     + sum_list (map tr_amount (filter (\<lambda>t. tr_userId t = userId \<and> toAccountId t = acc_id a) trs))
     - (sum_list (map tr_amount (filter (\<lambda>t. tr_userId t = userId \<and> fromAccountId t = acc_id a) trs))
        + sum_list (map (\<lambda>t. case fee t of None \<Rightarrow> 0 | Some f \<Rightarrow> f)
                     (filter (\<lambda>t. tr_userId t = userId \<and> fromAccountId t = acc_id a) trs)))"

definition narrowDebit :: "tx_type \<Rightarrow> bool" where
  "narrowDebit ty = (ty = Expense)"

definition allOutflow :: "tx_type \<Rightarrow> bool" where
  "allOutflow ty = (ty = Expense \<or> ty = DebtPayment \<or> ty = GoalContribution \<or> ty = LoanPayment)"

text \<open>
  Total portfolio balance as the specification words it: the sum of the current balance
  over the owner's accounts with \<open>isActive \<and> includeInTotal\<close>, optionally restricted to
  a configured subset of account ids.
\<close>

definition spec_total_balance ::
  "(tx_type \<Rightarrow> bool) \<Rightarrow> account list \<Rightarrow> txn list \<Rightarrow> transfer list \<Rightarrow> string
     \<Rightarrow> string list option \<Rightarrow> real" where
  "spec_total_balance debit accs txs trs userId balanceAccountIds =
     sum_list (map (spec_balance debit txs trs userId)
       (filter (\<lambda>a. acc_userId a = userId \<and> isActive a \<and> includeInTotal a \<and>
                    (case balanceAccountIds of None \<Rightarrow> True | Some ids \<Rightarrow> acc_id a \<in> set ids))
          accs))"

section \<open>Progress projections (goals, debts, loans)\<close>

record debt =
  debt_id :: string
  debt_userId :: string
  creditor :: string
  principalAmount :: real
  debt_currency :: string
  totalInstallments :: "int option"
  startDate :: string
  debt_dueDate :: "string option"
  debt_status :: string

record loan =
  loan_id :: string
  loan_userId :: string
  loan_principalAmount :: real
  loan_status :: string

record goal =
  goal_id :: string
  goal_userId :: string
  targetAmount :: real
  goal_isActive :: bool
  goal_isCompleted :: bool

text \<open>
  A JavaScript number as far as the projections need it: a finite value, or what a
  division by zero gives.
\<close>

datatype number = Finite real | PosInfinity | NegInfinity | NotANumber

text \<open>
  The percentage \<open>(accumulated / target) * 100\<close>. The validators admit positive targets
  only; for a zero target the division gives \<open>Infinity\<close>, \<open>-Infinity\<close> or \<open>NaN\<close>.
\<close>

definition percentage :: "real \<Rightarrow> real \<Rightarrow> number" where
  "percentage accumulated target =
     (if target = 0
      then (if 0 < accumulated then PosInfinity
            else if accumulated < 0 then NegInfinity else NotANumber)
      else Finite (accumulated / target * 100))"

text \<open>\<open>Math.min(progress, 100)\<close>.\<close>

definition math_min_100 :: "number \<Rightarrow> number" where
  "math_min_100 x =
     (case x of
        Finite p \<Rightarrow> Finite (min p 100)
      | PosInfinity \<Rightarrow> Finite 100
      | NegInfinity \<Rightarrow> NegInfinity
      | NotANumber \<Rightarrow> NotANumber)"

text \<open>
  A number in the JSON of a response: \<open>Infinity\<close>, \<open>-Infinity\<close> and \<open>NaN\<close> are printed
  as \<open>null\<close>, which is \<open>None\<close>.
\<close>

definition json_number :: "number \<Rightarrow> real option" where
  "json_number x = (case x of Finite p \<Rightarrow> Some p | _ \<Rightarrow> None)"

record projection =
  pj_current :: real
  pj_remaining :: real
  pj_progress :: "real option"

text \<open>\<open>GET /goals\<close> and \<open>GET /goals/:id\<close>: remaining is floored at 0, progress capped at 100.\<close>

definition goal_projection :: "txn list \<Rightarrow> string \<Rightarrow> goal \<Rightarrow> projection" where
  "goal_projection txs userId g =
     (let currentAmount = or_zero (sum_amount
            (\<lambda>t. tx_userId t = userId \<and> tx_goalId t = Some (goal_id g)
                 \<and> tx_type t = GoalContribution) txs);
          remainingAmount = targetAmount g - currentAmount
      in \<lparr> pj_current = currentAmount,
           pj_remaining = max 0 remainingAmount,
           pj_progress = json_number (math_min_100 (percentage currentAmount (targetAmount g))) \<rparr>)"

definition goals_get_list :: "goal list \<Rightarrow> txn list \<Rightarrow> string \<Rightarrow> bool \<Rightarrow> (goal \<times> projection) list" where
  "goals_get_list gs txs userId includeCompleted =
     map (\<lambda>g. (g, goal_projection txs userId g))
       (filter (\<lambda>g. goal_userId g = userId \<and> (if includeCompleted then True else \<not> goal_isCompleted g)) gs)"

text \<open>\<open>GET /debts\<close> and \<open>GET /debts/:id\<close>: remaining is not floored, progress capped at 100.\<close>

definition debt_projection :: "txn list \<Rightarrow> string \<Rightarrow> debt \<Rightarrow> projection" where
  "debt_projection txs userId d =
     (let paidAmount = or_zero (sum_amount
            (\<lambda>t. tx_userId t = userId \<and> tx_debtId t = Some (debt_id d)
                 \<and> tx_type t = DebtPayment) txs)
      in \<lparr> pj_current = paidAmount,
           pj_remaining = principalAmount d - paidAmount,
           pj_progress = json_number (math_min_100 (percentage paidAmount (principalAmount d))) \<rparr>)"

definition debts_get_list :: "debt list \<Rightarrow> txn list \<Rightarrow> string \<Rightarrow> string option \<Rightarrow> (debt \<times> projection) list" where
  "debts_get_list ds txs userId statusFilter =
     map (\<lambda>d. (d, debt_projection txs userId d))
       (filter (\<lambda>d. debt_userId d = userId \<and>
                     (case statusFilter of None \<Rightarrow> True
                      | Some s \<Rightarrow> if s = [] then True else debt_status d = s)) ds)"

text \<open>\<open>GET /loans\<close> and \<open>GET /loans/:id\<close>.\<close>

definition loan_projection :: "txn list \<Rightarrow> string \<Rightarrow> loan \<Rightarrow> projection" where
  "loan_projection txs userId l =
     (let receivedAmount = or_zero (sum_amount
            (\<lambda>t. tx_userId t = userId \<and> tx_loanId t = Some (loan_id l)
                 \<and> tx_type t = LoanPayment) txs)
      in \<lparr> pj_current = receivedAmount,
           pj_remaining = loan_principalAmount l - receivedAmount,
           pj_progress = json_number (math_min_100
                           (percentage receivedAmount (loan_principalAmount l))) \<rparr>)"

definition loans_get_list :: "loan list \<Rightarrow> txn list \<Rightarrow> string \<Rightarrow> string option \<Rightarrow> (loan \<times> projection) list" where
  "loans_get_list ls txs userId statusFilter =
     map (\<lambda>l. (l, loan_projection txs userId l))
       (filter (\<lambda>l. loan_userId l = userId \<and>
                     (case statusFilter of None \<Rightarrow> True
                      | Some s \<Rightarrow> if s = [] then True else loan_status l = s)) ls)"

text \<open>
  The goal widget of \<open>GET /dashboard\<close>: \<open>Math.round((currentAmount / targetAmount) * 100)\<close>,
  with neither floor nor cap. \<open>Math.round\<close> rounds a finite number to the nearest
  integer, halves upwards, and leaves \<open>Infinity\<close>, \<open>-Infinity\<close> and \<open>NaN\<close> as they are.
\<close>

definition math_round :: "real \<Rightarrow> int" where
  "math_round x = \<lfloor>x + 1 / 2\<rfloor>"

definition json_rounded :: "number \<Rightarrow> int option" where
  "json_rounded x = (case x of Finite p \<Rightarrow> Some (math_round p) | _ \<Rightarrow> None)"

record dashboard_goal =
  dg_currentAmount :: real
  dg_progress :: "int option"
  dg_remaining :: real

definition dashboard_goal_projection :: "txn list \<Rightarrow> string \<Rightarrow> goal \<Rightarrow> dashboard_goal" where
  "dashboard_goal_projection txs userId g =
     (let currentAmount = or_zero (sum_amount
            (\<lambda>t. tx_userId t = userId \<and> tx_goalId t = Some (goal_id g)
                 \<and> tx_type t = GoalContribution) txs)
      in \<lparr> dg_currentAmount = currentAmount,
           dg_progress = json_rounded (percentage currentAmount (targetAmount g)),
           dg_remaining = targetAmount g - currentAmount \<rparr>)"

text \<open>
  The generic projection as the specification words it:
  \<open>project(target, accumulated) = {current, remaining: max(0, target - current),
  progress: min(100, current / target * 100)}\<close>, for a target \<open>> 0\<close>.
\<close>

definition spec_progress :: "real \<Rightarrow> real \<Rightarrow> real" where
  "spec_progress target accumulated = min 100 (accumulated / target * 100)"

section \<open>Calendar dates (the JavaScript \<open>Date\<close> operations the handlers use)\<close>

text \<open>
  The handlers build a \<open>Date\<close> from a \<open>YYYY-MM-DD\<close> string, which denotes midnight
  UTC of that day, change it with \<open>setDate\<close>, \<open>setMonth\<close> and \<open>setFullYear\<close>, and print
  it with \<open>toISOString().split("T")[0]\<close>. The worker runs with UTC as its local time
  zone, so a \<open>Date\<close> is modelled by its day number: the days since 1970-01-01. The
  definitions follow the time-value functions of ECMAScript: \<open>DayFromYear\<close>,
  \<open>YearFromTime\<close>, \<open>InLeapYear\<close>, \<open>MonthFromTime\<close>, \<open>DateFromTime\<close> and \<open>MakeDay\<close>.
\<close>

definition day_from_year :: "int \<Rightarrow> int" where
  "day_from_year y = 365 * (y - 1970) + (y - 1969) div 4 - (y - 1901) div 100 + (y - 1601) div 400"

definition in_leap_year :: "int \<Rightarrow> bool" where
  "in_leap_year y = (y mod 4 = 0 \<and> (y mod 100 \<noteq> 0 \<or> y mod 400 = 0))"

subsection \<open>Years have 365 or 366 days\<close>

lemma div_succ:
  fixes x n :: int
  assumes "0 < n"
  shows "(x + 1) div n = x div n + (if (x + 1) mod n = 0 then 1 else 0)"
proof -
  define q where "q = x div n"
  define r where "r = x mod n"
  have x: "x = q * n + r" and r: "0 \<le> r" "r < n"
    using assms by (simp_all add: q_def r_def)
  show ?thesis
  proof (cases "r + 1 = n")
    case True
    then have "x + 1 = (q + 1) * n" using x by (simp add: algebra_simps)
    then show ?thesis using assms by (simp add: q_def)
  next
    case False
    then have lt: "r + 1 < n" using r by simp
    have e: "x + 1 = q * n + (r + 1)" using x by simp
    have d: "(x + 1) div n = q"
      unfolding e using lt r assms by simp
    have m: "(x + 1) mod n = r + 1"
      unfolding e using lt r assms by simp
    show ?thesis using d m r by (simp add: q_def)
  qed
qed

lemma mod_shift:
  fixes y n c :: int
  assumes "n dvd c"
  shows "(y - c) mod n = 0 \<longleftrightarrow> y mod n = 0"
  using assms by (simp add: mod_eq_0_iff_dvd dvd_diff_left_iff)

lemma mod_0_trans:
  fixes y m n :: int
  assumes "y mod m = 0" and "n dvd m"
  shows "y mod n = 0"
proof -
  from assms(1) have "m dvd y" by (simp add: mod_eq_0_iff_dvd)
  with assms(2) have "n dvd y" using dvd_trans by blast
  then show ?thesis by (simp add: mod_eq_0_iff_dvd)
qed

lemma div_succ_shift:
  fixes y n c :: int
  assumes "0 < n" and "n dvd (c - 1)"
  shows "(y + 1 - c) div n = (y - c) div n + (if y mod n = 0 then 1 else 0)"
proof -
  have e: "y + 1 - c = (y - c) + 1" by simp
  have "(y - c + 1) mod n = 0 \<longleftrightarrow> (y - (c - 1)) mod n = 0"
    by (simp add: algebra_simps)
  also have "\<dots> \<longleftrightarrow> y mod n = 0"
    by (rule mod_shift [OF assms(2)])
  finally have m: "(y - c + 1) mod n = 0 \<longleftrightarrow> y mod n = 0" .
  show ?thesis
    unfolding e div_succ [OF assms(1), of "y - c"] m ..
qed

lemma leap_step_arith:
  fixes y d4 d100 d400 :: int
  assumes "p100 \<Longrightarrow> p4" "p400 \<Longrightarrow> p100"
  shows "365 * (y + 1 - 1970) + (d4 + (if p4 then 1 else 0))
            - (d100 + (if p100 then 1 else 0)) + (d400 + (if p400 then 1 else 0))
       = 365 * (y - 1970) + d4 - d100 + d400 + (if (p4 \<and> (\<not> p100 \<or> p400)) then 366 else 365)"
  using assms by (cases p4; cases p100; cases p400) simp_all

lemma day_from_year_step:
  "day_from_year (y + 1) = day_from_year y + (if in_leap_year y then 366 else 365)"
proof -
  have a: "(y + 1 - 1969) div 4 = (y - 1969) div 4 + (if y mod 4 = 0 then 1 else 0)"
    by (rule div_succ_shift) simp_all
  have b: "(y + 1 - 1901) div 100 = (y - 1901) div 100 + (if y mod 100 = 0 then 1 else 0)"
    by (rule div_succ_shift) simp_all
  have c: "(y + 1 - 1601) div 400 = (y - 1601) div 400 + (if y mod 400 = 0 then 1 else 0)"
    by (rule div_succ_shift) simp_all
  have i1: "y mod 100 = 0 \<Longrightarrow> y mod 4 = 0"
    by (erule mod_0_trans) simp
  have i2: "y mod 400 = 0 \<Longrightarrow> y mod 100 = 0"
    by (erule mod_0_trans) simp
  have "day_from_year (y + 1) = 365 * (y + 1 - 1970) + ((y - 1969) div 4 + (if y mod 4 = 0 then 1 else 0))
            - ((y - 1901) div 100 + (if y mod 100 = 0 then 1 else 0))
            + ((y - 1601) div 400 + (if y mod 400 = 0 then 1 else 0))"
    unfolding day_from_year_def a b c ..
  also have "\<dots> = 365 * (y - 1970) + (y - 1969) div 4 - (y - 1901) div 100 + (y - 1601) div 400
      + (if (y mod 4 = 0 \<and> (\<not> y mod 100 = 0 \<or> y mod 400 = 0)) then 366 else 365)"
    by (rule leap_step_arith [OF i1 i2])
  finally show ?thesis
    unfolding day_from_year_def in_leap_year_def .
qed

lemma day_from_year_less: "day_from_year y < day_from_year (y + 1)"
  by (simp add: day_from_year_step)

subsection \<open>From a day number to year, month and day of the month\<close>

text \<open>
  \<open>YearFromTime\<close> is the largest year whose first day is not after the given day. It is
  found from an estimate by stepping down while the year starts after the day, then up
  while the next year starts on or before it.
\<close>

function year_down :: "int \<Rightarrow> int \<Rightarrow> int" where
  "year_down y z = (if z < day_from_year y then year_down (y - 1) z else y)"
  by pat_completeness auto
termination
proof (relation "measure (\<lambda>(y, z). nat (day_from_year y - z))")
  show "wf (measure (\<lambda>(y, z). nat (day_from_year y - z)))" by simp
next
  fix y z :: int
  assume "z < day_from_year y"
  moreover have "day_from_year (y - 1) < day_from_year y"
    using day_from_year_less [of "y - 1"] by simp
  ultimately show "((y - 1, z), (y, z)) \<in> measure (\<lambda>(y, z). nat (day_from_year y - z))"
    by simp
qed

function year_up :: "int \<Rightarrow> int \<Rightarrow> int" where
  "year_up y z = (if day_from_year (y + 1) \<le> z then year_up (y + 1) z else y)"
  by pat_completeness auto
termination
proof (relation "measure (\<lambda>(y, z). nat (z + 1 - day_from_year (y + 1)))")
  show "wf (measure (\<lambda>(y, z). nat (z + 1 - day_from_year (y + 1))))" by simp
next
  fix y z :: int
  assume "day_from_year (y + 1) \<le> z"
  moreover have "day_from_year (y + 1) < day_from_year (y + 1 + 1)"
    by (rule day_from_year_less)
  ultimately show "((y + 1, z), (y, z)) \<in> measure (\<lambda>(y, z). nat (z + 1 - day_from_year (y + 1)))"
    by simp
qed

declare year_down.simps [simp del] year_up.simps [simp del]

definition year_from_day :: "int \<Rightarrow> int" where
  "year_from_day z = year_up (year_down (1970 + z div 365) z) z"

text \<open>The day within the year on which month \<open>m\<close> (0 = January) starts.\<close>

definition month_start :: "bool \<Rightarrow> int \<Rightarrow> int" where
  "month_start leap m =
     (if m = 0 then 0 else if m = 1 then 31
      else (if leap then 1 else 0) +
        (if m = 2 then 59 else if m = 3 then 90 else if m = 4 then 120 else if m = 5 then 151
         else if m = 6 then 181 else if m = 7 then 212 else if m = 8 then 243
         else if m = 9 then 273 else if m = 10 then 304 else 334))"

definition month_from_day_in_year :: "bool \<Rightarrow> int \<Rightarrow> int" where
  "month_from_day_in_year leap d =
     (let l = (if leap then 1 else 0) in
      if d < 31 then 0 else if d < 59 + l then 1 else if d < 90 + l then 2
      else if d < 120 + l then 3 else if d < 151 + l then 4 else if d < 181 + l then 5
      else if d < 212 + l then 6 else if d < 243 + l then 7 else if d < 273 + l then 8
      else if d < 304 + l then 9 else if d < 334 + l then 10 else 11)"

text \<open>The length of month \<open>m\<close>, and the dates of the calendar.\<close>

definition days_in_month :: "bool \<Rightarrow> int \<Rightarrow> int" where
  "days_in_month leap m =
     (if m = 1 then (if leap then 29 else 28)
      else if m = 3 \<or> m = 5 \<or> m = 8 \<or> m = 10 then 30 else 31)"

definition valid_date :: "int \<Rightarrow> int \<Rightarrow> int \<Rightarrow> bool" where
  "valid_date y m d =
     (0 \<le> m \<and> m \<le> 11 \<and> 1 \<le> d \<and> d \<le> days_in_month (in_leap_year y) m)"

definition getFullYear :: "int \<Rightarrow> int" where
  "getFullYear z = year_from_day z"

definition getMonth :: "int \<Rightarrow> int" where
  "getMonth z = month_from_day_in_year (in_leap_year (year_from_day z))
                  (z - day_from_year (year_from_day z))"

definition getDate :: "int \<Rightarrow> int" where
  "getDate z = z - day_from_year (year_from_day z)
                 - month_start (in_leap_year (year_from_day z)) (getMonth z) + 1"

text \<open>
  \<open>MakeDay(year, month, date)\<close>: months beyond 0..11 carry into the year, and the day
  of the month is added as a plain offset, so a day past the end of the month runs on
  into the following month.
\<close>

definition make_day :: "int \<Rightarrow> int \<Rightarrow> int \<Rightarrow> int" where
  "make_day year month date =
     (let ym = year + month div 12; mn = month mod 12
      in day_from_year ym + month_start (in_leap_year ym) mn + date - 1)"

definition setDate :: "int \<Rightarrow> int \<Rightarrow> int" where
  "setDate z date = make_day (getFullYear z) (getMonth z) date"

definition setMonth :: "int \<Rightarrow> int \<Rightarrow> int" where
  "setMonth z month = make_day (getFullYear z) month (getDate z)"

definition setFullYear :: "int \<Rightarrow> int \<Rightarrow> int" where
  "setFullYear z year = make_day year (getMonth z) (getDate z)"

text \<open>
  The calendar date that \<open>MakeDay(year, month, date)\<close> denotes for a day of the month
  from 1 to 31, in calendar terms: the months beyond 0..11 carry into the year; a day the
  month has is that day of that month; a day the month lacks runs on into the following
  month by as many days as it exceeds the month's length.
\<close>

definition carried_date :: "int \<Rightarrow> int \<Rightarrow> int \<Rightarrow> int \<times> int \<times> int" where
  "carried_date year month date =
     (let y = year + month div 12; m = month mod 12; n = days_in_month (in_leap_year y) m
      in if date \<le> n then (y, m, date) else (y, m + 1, date - n))"

subsection \<open>Parsing and printing\<close>

definition is_digit :: "char \<Rightarrow> bool" where
  "is_digit c = (c \<in> set ''0123456789'')"

definition digit_val :: "char \<Rightarrow> int" where
  "digit_val c = int (of_char c) - 48"

definition digits_val :: "string \<Rightarrow> int" where
  "digits_val s = foldl (\<lambda>n c. 10 * n + digit_val c) 0 s"

text \<open>The validators' pattern \<open>/^\d{4}-\d{2}-\d{2}$/\<close>, which every stored date matches.\<close>

definition matches_date_regex :: "string \<Rightarrow> bool" where
  "matches_date_regex s =
     (length s = 10 \<and> list_all is_digit (take 4 s) \<and> s ! 4 = CHR ''-''
      \<and> list_all is_digit (take 2 (drop 5 s)) \<and> s ! 7 = CHR ''-''
      \<and> list_all is_digit (take 2 (drop 8 s)))"

text \<open>
  The expanded-year form that \<open>toISOString\<close> prints for years outside 0 to 9999: a
  sign and six digits for the year.
\<close>

definition matches_expanded_date :: "string \<Rightarrow> bool" where
  "matches_expanded_date s =
     (length s = 13 \<and> (s ! 0 = CHR ''+'' \<or> s ! 0 = CHR ''-'')
      \<and> list_all is_digit (take 6 (drop 1 s)) \<and> s ! 7 = CHR ''-''
      \<and> list_all is_digit (take 2 (drop 8 s)) \<and> s ! 10 = CHR ''-''
      \<and> list_all is_digit (take 2 (drop 11 s)))"

text \<open>
  The year, month and day fields of a date string. Every date the handlers store has one
  of the two forms: the validators' pattern for what a client sends, and what
  \<open>toISOString\<close> prints for what the handlers compute. The year \<open>-000000\<close> is not a
  date. Other strings are not stored; they are \<open>None\<close> here.
\<close>

definition date_fields :: "string \<Rightarrow> (int \<times> int \<times> int) option" where
  "date_fields s =
     (if matches_date_regex s then
        Some (digits_val (take 4 s), digits_val (take 2 (drop 5 s)),
              digits_val (take 2 (drop 8 s)))
      else if matches_expanded_date s then
        (if s ! 0 = CHR ''-'' then
           (if digits_val (take 6 (drop 1 s)) = 0 then None
            else Some (- digits_val (take 6 (drop 1 s)), digits_val (take 2 (drop 8 s)),
                       digits_val (take 2 (drop 11 s))))
         else Some (digits_val (take 6 (drop 1 s)), digits_val (take 2 (drop 8 s)),
                    digits_val (take 2 (drop 11 s))))
      else None)"

text \<open>
  \<open>TimeClip\<close>: a \<open>Date\<close> holds at most \<open>8.64e15\<close> milliseconds either side of the
  epoch, which is 100000000 days; beyond that the date is an \<open>Invalid Date\<close>.
\<close>

definition in_date_range :: "int \<Rightarrow> bool" where
  "in_date_range z = (- 100000000 \<le> z \<and> z \<le> 100000000)"

definition time_clip :: "int \<Rightarrow> int option" where
  "time_clip z = (if in_date_range z then Some z else None)"

text \<open>
  \<open>new Date(s)\<close>: the day number, or \<open>None\<close> for an \<open>Invalid Date\<close>. The engine (V8)
  accepts months 1 to 12 and days 1 to 31 and lets \<open>MakeDay\<close> carry a day the month
  lacks into the next month.
\<close>

definition date_parse :: "string \<Rightarrow> int option" where
  "date_parse s =
     (case date_fields s of
        None \<Rightarrow> None
      | Some (y, m, d) \<Rightarrow>
          if 1 \<le> m \<and> m \<le> 12 \<and> 1 \<le> d \<and> d \<le> 31 then time_clip (make_day y (m - 1) d)
          else None)"

definition digit_char :: "nat \<Rightarrow> char" where
  "digit_char n = ''0123456789'' ! (n mod 10)"

fun pad_digits :: "nat \<Rightarrow> nat \<Rightarrow> string" where
  "pad_digits 0 n = []"
| "pad_digits (Suc k) n = pad_digits k (n div 10) @ [digit_char n]"

text \<open>
  The text of a calendar date (year, month index, day of the month) as \<open>toISOString\<close>
  prints it: four digits for the years 0 to 9999, a sign and six digits otherwise.
\<close>

definition iso_date :: "int \<times> int \<times> int \<Rightarrow> string" where
  "iso_date ymd =
     (case ymd of (y, m, d) \<Rightarrow>
        (if 0 \<le> y \<and> y \<le> 9999 then pad_digits 4 (nat y)
         else (if y < 0 then ''-'' else ''+'') @ pad_digits 6 (nat \<bar>y\<bar>))
        @ ''-'' @ pad_digits 2 (nat (m + 1)) @ ''-'' @ pad_digits 2 (nat d))"

text \<open>\<open>toISOString().split("T")[0]\<close> of a valid date.\<close>

definition toISODate :: "int \<Rightarrow> string" where
  "toISODate z = iso_date (getFullYear z, getMonth z, getDate z)"

text \<open>
  \<open>getNextDueDate\<close> (scheduled payments). An unknown frequency leaves the date as it
  is. Printing an \<open>Invalid Date\<close> throws, which is \<open>None\<close>: the date is invalid when
  the string is no date and when the setter leaves the range of \<open>Date\<close>.
\<close>

definition getNextDueDate :: "string \<Rightarrow> string \<Rightarrow> string option" where
  "getNextDueDate currentDate frequency =
     (case date_parse currentDate of
        None \<Rightarrow> None
      | Some date \<Rightarrow>
          map_option toISODate (time_clip
            (if frequency = ''weekly'' then setDate date (getDate date + 7)
             else if frequency = ''biweekly'' then setDate date (getDate date + 14)
             else if frequency = ''monthly'' then setMonth date (getMonth date + 1)
             else if frequency = ''quarterly'' then setMonth date (getMonth date + 3)
             else if frequency = ''yearly'' then setFullYear date (getFullYear date + 1)
             else date)))"

text \<open>Decimal digits of a natural number, as a template literal prints it.\<close>

fun show_nat :: "nat \<Rightarrow> string" where
  "show_nat n = (if n < 10 then [digit_char n] else show_nat (n div 10) @ [digit_char n])"

declare show_nat.simps [simp del]

text \<open>Dates are compared as strings (\<open>str_le\<close>), byte by byte, as SQLite compares \<open>text\<close>.\<close>

text \<open>\<open>timestamp.split("T")[0]\<close>: the part before the first \<open>T\<close>.\<close>

definition date_part :: "string \<Rightarrow> string" where
  "date_part timestamp = takeWhile (\<lambda>c. c \<noteq> CHR ''T'') timestamp"

section \<open>Scheduled payments (the scheduled-payments routes)\<close>

datatype sp_status = Pending | Paid | Cancelled | Overdue

datatype sp_priority = Low | Medium | High | Urgent

record payment =
  sp_id :: string
  sp_userId :: string
  sp_name :: string
  sp_description :: "string option"
  sp_amount :: real
  sp_currency :: string
  dueDate :: string
  status :: sp_status
  paidDate :: "string option"
  paidAmount :: "real option"
  sp_categoryId :: "string option"
  sp_accountId :: "string option"
  sp_debtId :: "string option"
  sp_loanId :: "string option"
  debtInstallmentId :: "string option"
  isRecurring :: bool
  recurringFrequency :: "string option"
  priority :: sp_priority
  sp_tags :: "string option"
  sp_notes :: "string option"
  reminderDays :: "int option"
  sp_createdAt :: string
  sp_updatedAt :: string

text \<open>The two tables the lifecycle writes.\<close>

record db =
  payments :: "payment list"
  ledger :: "txn list"

text \<open>JavaScript truthiness of a nullable string: \<open>truthy v\<close> is the string when it is
  neither \<open>null\<close> nor empty, and \<open>None\<close> otherwise.\<close>

definition truthy :: "string option \<Rightarrow> string option" where
  "truthy v = (case v of None \<Rightarrow> None | Some s \<Rightarrow> if s = [] then None else Some s)"

text \<open>
  \<open>select ... where id = :id and userId = :userId limit 1\<close>: the first such row.
\<close>

definition find_payment :: "payment list \<Rightarrow> string \<Rightarrow> string \<Rightarrow> payment option" where
  "find_payment ps userId pid = find (\<lambda>p. sp_id p = pid \<and> sp_userId p = userId) ps"

subsection \<open>Overdue sweep\<close>

text \<open>
  \<open>markOverduePayments\<close>: one \<open>update\<close> of the rows of the owner that are pending and
  due on or before today. \<open>now\<close> is the timestamp \<open>new Date().toISOString()\<close>.
\<close>

definition markOverduePayments :: "payment list \<Rightarrow> string \<Rightarrow> string \<Rightarrow> payment list" where
  "markOverduePayments ps userId now =
     map (\<lambda>p. if sp_userId p = userId \<and> status p = Pending \<and> str_le (dueDate p) (date_part now)
               then p\<lparr>status := Overdue, sp_updatedAt := now\<rparr> else p) ps"

text \<open>The dashboard runs the same update inline, when scheduled payments are shown.\<close>

definition dashboard_mark_overdue :: "payment list \<Rightarrow> string \<Rightarrow> string \<Rightarrow> bool \<Rightarrow> payment list" where
  "dashboard_mark_overdue ps userId now showScheduledPayments =
     (if showScheduledPayments
      then map (\<lambda>p. if sp_userId p = userId \<and> status p = Pending \<and> str_le (dueDate p) (date_part now)
                     then p\<lparr>status := Overdue, sp_updatedAt := now\<rparr> else p) ps
      else ps)"

subsection \<open>Update\<close>

text \<open>
  The parsed body of \<open>PATCH /:id\<close> (\<open>updateScheduledPaymentSchema\<close>): every field is
  optional, and the nullable ones may be set to \<open>null\<close>. An absent field is \<open>None\<close>.
\<close>

record payment_patch =
  pp_name :: "string option"
  pp_description :: "string option option"
  pp_amount :: "real option"
  pp_dueDate :: "string option"
  pp_status :: "sp_status option"
  pp_paidDate :: "string option option"
  pp_paidAmount :: "real option option"
  pp_categoryId :: "string option option"
  pp_accountId :: "string option option"
  pp_priority :: "sp_priority option"
  pp_tags :: "string option option"
  pp_notes :: "string option option"
  pp_reminderDays :: "int option"

definition or_old :: "'a option \<Rightarrow> 'a \<Rightarrow> 'a" where
  "or_old v old = (case v of None \<Rightarrow> old | Some x \<Rightarrow> x)"

text \<open>\<open>.set({ ...parsed.data, updatedAt })\<close>: the fields present overwrite the columns.\<close>

definition apply_patch :: "payment_patch \<Rightarrow> string \<Rightarrow> payment \<Rightarrow> payment" where
  "apply_patch patch now p =
     p\<lparr> sp_name := or_old (pp_name patch) (sp_name p),
        sp_description := or_old (pp_description patch) (sp_description p),
        sp_amount := or_old (pp_amount patch) (sp_amount p),
        dueDate := or_old (pp_dueDate patch) (dueDate p),
        status := or_old (pp_status patch) (status p),
        paidDate := or_old (pp_paidDate patch) (paidDate p),
        paidAmount := or_old (pp_paidAmount patch) (paidAmount p),
        sp_categoryId := or_old (pp_categoryId patch) (sp_categoryId p),
        sp_accountId := or_old (pp_accountId patch) (sp_accountId p),
        priority := or_old (pp_priority patch) (priority p),
        sp_tags := or_old (pp_tags patch) (sp_tags p),
        sp_notes := or_old (pp_notes patch) (sp_notes p),
        reminderDays := (case pp_reminderDays patch of None \<Rightarrow> reminderDays p | Some r \<Rightarrow> Some r),
        sp_updatedAt := now \<rparr>"

definition update_payment ::
  "payment list \<Rightarrow> string \<Rightarrow> string \<Rightarrow> payment_patch \<Rightarrow> string
     \<Rightarrow> payment list \<times> (error + payment option)" where
  "update_payment ps userId pid patch now =
     (case find_payment ps userId pid of
        None \<Rightarrow> (ps, Inl NotFound)
      | Some existing \<Rightarrow>
          (let ps' = map (\<lambda>p. if sp_id p = pid \<and> sp_userId p = userId
                               then apply_patch patch now p else p) ps
           in (ps', Inr (find (\<lambda>p. sp_id p = pid) ps'))))"

subsection \<open>Settlement\<close>

text \<open>The parsed body of \<open>POST /:id/pay\<close> (\<open>markPaymentAsPaidSchema\<close>).\<close>

record pay_body =
  pb_paidDate :: "string option"
  pb_paidAmount :: "real option"
  createNextRecurrence :: bool

record pay_response =
  pr_payment :: payment
  pr_nextPayment :: "payment option"
  pr_transaction :: "string option"

definition next_payment :: "payment \<Rightarrow> string \<Rightarrow> string \<Rightarrow> string \<Rightarrow> string \<Rightarrow> payment" where
  "next_payment payment userId nextId nextDueDate now =
     \<lparr> sp_id = nextId, sp_userId = userId, sp_name = sp_name payment,
       sp_description = sp_description payment, sp_amount = sp_amount payment,
       sp_currency = sp_currency payment, dueDate = nextDueDate, status = Pending,
       paidDate = None, paidAmount = None, sp_categoryId = sp_categoryId payment,
       sp_accountId = sp_accountId payment, sp_debtId = sp_debtId payment,
       sp_loanId = sp_loanId payment, debtInstallmentId = None, isRecurring = True,
       recurringFrequency = recurringFrequency payment, priority = priority payment,
       sp_tags = sp_tags payment, sp_notes = sp_notes payment, reminderDays = reminderDays payment,
       sp_createdAt = now, sp_updatedAt = now \<rparr>"

definition settlement_transaction ::
  "payment \<Rightarrow> string \<Rightarrow> string \<Rightarrow> string \<Rightarrow> real \<Rightarrow> string \<Rightarrow> string \<Rightarrow> txn" where
  "settlement_transaction payment userId txId accountId amount date now =
     \<lparr> tx_id = txId, tx_userId = userId, tx_accountId = accountId,
       tx_categoryId = sp_categoryId payment, tx_type = Expense, tx_amount = amount,
       tx_description = Some (''Pago: '' @ sp_name payment), tx_date = date,
       tx_debtId = None, tx_loanId = None, tx_goalId = None,
       tx_createdAt = now, tx_updatedAt = now \<rparr>"

text \<open>
  The last step of the handler: with an account assigned, one expense entry is inserted.
\<close>

definition post_settlement ::
  "db \<Rightarrow> payment \<Rightarrow> string \<Rightarrow> string \<Rightarrow> string \<Rightarrow> real \<Rightarrow> string \<Rightarrow> payment option
     \<Rightarrow> db \<times> (error + pay_response)" where
  "post_settlement d payment userId txId pdate pamount now nextPayment =
     (let paid = payment\<lparr>status := Paid, paidDate := Some pdate, paidAmount := Some pamount\<rparr>
      in case truthy (sp_accountId payment) of
           Some accountId \<Rightarrow>
             (d\<lparr>ledger := ledger d @ [settlement_transaction payment userId txId
                                         accountId pamount pdate now]\<rparr>,
              Inr \<lparr> pr_payment = paid, pr_nextPayment = nextPayment,
                    pr_transaction = Some txId \<rparr>)
         | None \<Rightarrow>
             (d, Inr \<lparr> pr_payment = paid, pr_nextPayment = nextPayment,
                       pr_transaction = None \<rparr>))"

text \<open>
  \<open>parsed.data.paidDate || now.split("T")[0]\<close> and
  \<open>parsed.data.paidAmount || payment.amount\<close>.
\<close>

definition paid_date :: "pay_body \<Rightarrow> string \<Rightarrow> string" where
  "paid_date body now = (case truthy (pb_paidDate body) of None \<Rightarrow> date_part now | Some v \<Rightarrow> v)"

definition paid_amount :: "pay_body \<Rightarrow> payment \<Rightarrow> real" where
  "paid_amount body payment =
     (case pb_paidAmount body of
        None \<Rightarrow> sp_amount payment
      | Some a \<Rightarrow> if a = 0 then sp_amount payment else a)"

text \<open>The \<open>update ... set status = 'paid', ... where id = :id\<close> statement.\<close>

definition mark_paid :: "payment list \<Rightarrow> string \<Rightarrow> string \<Rightarrow> real \<Rightarrow> string \<Rightarrow> payment list" where
  "mark_paid ps pid pdate pamount now =
     map (\<lambda>p. if sp_id p = pid
               then p\<lparr>status := Paid, paidDate := Some pdate, paidAmount := Some pamount,
                      sp_updatedAt := now\<rparr>
               else p) ps"

text \<open>
  \<open>POST /:id/pay\<close>. \<open>nextId\<close> and \<open>txId\<close> are the two \<open>crypto.randomUUID()\<close> values.
  The writes are separate statements: when \<open>getNextDueDate\<close> throws, on a due date
  that is no date or an advance beyond the range of \<open>Date\<close>, the row is already marked
  paid and the request fails.
\<close>

definition pay ::
  "db \<Rightarrow> string \<Rightarrow> string \<Rightarrow> pay_body \<Rightarrow> string \<Rightarrow> string \<Rightarrow> string
     \<Rightarrow> db \<times> (error + pay_response)" where
  "pay d userId pid body now nextId txId =
     (case find_payment (payments d) userId pid of
        None \<Rightarrow> (d, Inl NotFound)
      | Some payment \<Rightarrow>
          if status payment = Paid then (d, Inl InvalidTransition)
          else if status payment = Cancelled then (d, Inl InvalidTransition)
          else
            (let pdate = paid_date body now;
                 pamount = paid_amount body payment;
                 d1 = d\<lparr>payments := mark_paid (payments d) pid pdate pamount now\<rparr>
             in case (if isRecurring payment \<and> createNextRecurrence body
                      then truthy (recurringFrequency payment) else None) of
                  Some frequency \<Rightarrow>
                    (case getNextDueDate (dueDate payment) frequency of
                       None \<Rightarrow> (d1, Inl ServerError)
                     | Some nextDueDate \<Rightarrow>
                         (let np = next_payment payment userId nextId nextDueDate now
                          in post_settlement (d1\<lparr>payments := payments d1 @ [np]\<rparr>)
                               payment userId txId pdate pamount now (Some np)))
                | None \<Rightarrow> post_settlement d1 payment userId txId pdate pamount now None))"

subsection \<open>Cancellation\<close>

definition cancel :: "payment list \<Rightarrow> string \<Rightarrow> string \<Rightarrow> string \<Rightarrow> payment list \<times> (error + unit)" where
  "cancel ps userId pid now =
     (case find_payment ps userId pid of
        None \<Rightarrow> (ps, Inl NotFound)
      | Some payment \<Rightarrow>
          if status payment = Paid then (ps, Inl InvalidTransition)
          else (map (\<lambda>p. if sp_id p = pid then p\<lparr>status := Cancelled, sp_updatedAt := now\<rparr>
                          else p) ps, Inr ()))"

subsection \<open>Bulk generation from a debt\<close>

text \<open>
  The body of the loop of \<open>POST /from-debt/:debtId\<close> for index \<open>i\<close>; \<open>start\<close> is the
  day number of \<open>new Date(debt.dueDate || debt.startDate)\<close> and \<open>newId\<close> the fresh id.
\<close>

definition installment_payment ::
  "debt \<Rightarrow> string \<Rightarrow> string \<Rightarrow> int \<Rightarrow> int \<Rightarrow> string \<Rightarrow> nat \<Rightarrow> payment" where
  "installment_payment debt userId now n start newId i =
     \<lparr> sp_id = newId, sp_userId = userId,
       sp_name = creditor debt @ '' - Cuota '' @ show_nat (i + 1) @ ''/'' @ show_nat (nat n),
       sp_description = Some (''Pago de deuda: '' @ creditor debt),
       sp_amount = principalAmount debt / real_of_int n,
       sp_currency = debt_currency debt,
       dueDate = toISODate (setMonth start (getMonth start + int i)),
       status = Pending, paidDate = None, paidAmount = None,
       sp_categoryId = None, sp_accountId = None, sp_debtId = Some (debt_id debt),
       sp_loanId = None, debtInstallmentId = None, isRecurring = False,
       recurringFrequency = None, priority = High, sp_tags = None, sp_notes = None,
       reminderDays = Some 3, sp_createdAt = now, sp_updatedAt = now \<rparr>"

text \<open>
  \<open>POST /from-debt/:debtId\<close>. \<open>uuid i\<close> is the id drawn in round \<open>i\<close>. All rows are
  inserted by one \<open>db.batch\<close>. Nothing is written when the request fails: printing an
  \<open>Invalid Date\<close> throws inside the loop, and \<open>db.batch\<close> throws on an empty list of
  statements, which is what a negative number of installments gives.
\<close>

definition from_debt ::
  "debt list \<Rightarrow> payment list \<Rightarrow> string \<Rightarrow> string \<Rightarrow> string \<Rightarrow> (nat \<Rightarrow> string)
     \<Rightarrow> payment list \<times> (error + payment list)" where
  "from_debt debts ps userId debtId now uuid =
     (case find (\<lambda>d. debt_id d = debtId \<and> debt_userId d = userId) debts of
        None \<Rightarrow> (ps, Inl NotFound)
      | Some debt \<Rightarrow>
          (let n = (case totalInstallments debt of
                      None \<Rightarrow> 1 | Some k \<Rightarrow> if k = 0 then 1 else k)
           in case date_parse (case truthy (debt_dueDate debt) of
                                 None \<Rightarrow> startDate debt | Some v \<Rightarrow> v) of
                None \<Rightarrow> (ps, Inl ServerError)
              | Some start \<Rightarrow>
                  if n < 1 then (ps, Inl ServerError)
                  else if list_all (\<lambda>i. in_date_range (setMonth start (getMonth start + int i)))
                            [0..<nat n]
                  then
                    (let paymentsToCreate =
                           map (\<lambda>i. installment_payment debt userId now n start (uuid i) i)
                               [0..<nat n]
                     in (ps @ paymentsToCreate, Inr paymentsToCreate))
                  else (ps, Inl ServerError)))"

section \<open>Example rows\<close>

definition ex_account_A :: account where
  "ex_account_A = \<lparr> acc_id = ''a1'', acc_userId = ''u1'', initialBalance = 1000,
                     isActive = True, includeInTotal = True \<rparr>"

definition ex_account_hidden :: account where
  "ex_account_hidden = \<lparr> acc_id = ''a3'', acc_userId = ''u1'', initialBalance = 500,
                          isActive = True, includeInTotal = False \<rparr>"

definition ex_transfer_AB :: transfer where
  "ex_transfer_AB = \<lparr> tr_id = ''t1'', tr_userId = ''u1'', fromAccountId = ''a1'',
                       toAccountId = ''a2'', tr_amount = 200, fee = Some 5 \<rparr>"

definition ex_payment :: payment where
  "ex_payment =
     \<lparr> sp_id = ''p1'', sp_userId = ''u1'', sp_name = ''Rent'', sp_description = None,
       sp_amount = 100, sp_currency = ''PEN'', dueDate = ''2025-01-31'', status = Pending,
       paidDate = None, paidAmount = None, sp_categoryId = None, sp_accountId = Some ''a1'',
       sp_debtId = None, sp_loanId = None, debtInstallmentId = None, isRecurring = True,
       recurringFrequency = Some ''monthly'', priority = Medium, sp_tags = None,
       sp_notes = None, reminderDays = Some 3,
       sp_createdAt = ''2025-01-01T09:00:00.000Z'', sp_updatedAt = ''2025-01-01T09:00:00.000Z'' \<rparr>"

text \<open>A one-off payment with no account assigned.\<close>

definition ex_payment_unlinked :: payment where
  "ex_payment_unlinked = ex_payment\<lparr>sp_accountId := None, isRecurring := False,
                                     recurringFrequency := None\<rparr>"

definition ex_body :: pay_body where
  "ex_body = \<lparr> pb_paidDate = None, pb_paidAmount = None, createNextRecurrence = True \<rparr>"

definition ex_now :: string where
  "ex_now = ''2025-02-01T08:30:00.000Z''"

definition ex_patch_status :: "sp_status option \<Rightarrow> payment_patch" where
  "ex_patch_status st =
     \<lparr> pp_name = None, pp_description = None, pp_amount = None, pp_dueDate = None,
       pp_status = st, pp_paidDate = None, pp_paidAmount = None, pp_categoryId = None,
       pp_accountId = None, pp_priority = None, pp_tags = None, pp_notes = None,
       pp_reminderDays = None \<rparr>"

definition ex_debt :: debt where
  "ex_debt = \<lparr> debt_id = ''d1'', debt_userId = ''u1'', creditor = ''Bank'',
               principalAmount = 1200, debt_currency = ''PEN'', totalInstallments = Some 12,
               startDate = ''2025-01-01'', debt_dueDate = None, debt_status = ''active'' \<rparr>"

definition ex_goal :: "real \<Rightarrow> goal" where
  "ex_goal target = \<lparr> goal_id = ''g1'', goal_userId = ''u1'', targetAmount = target,
                       goal_isActive = True, goal_isCompleted = False \<rparr>"

text \<open>A contribution of the given amount to goal \<open>g1\<close>, from account \<open>a1\<close> of owner \<open>u1\<close>.\<close>

definition ex_contribution :: "string \<Rightarrow> real \<Rightarrow> txn" where
  "ex_contribution tid amount =
     \<lparr> tx_id = tid, tx_userId = ''u1'', tx_accountId = ''a1'', tx_categoryId = None,
       tx_type = GoalContribution, tx_amount = amount, tx_description = None,
       tx_date = ''2025-01-15'', tx_debtId = None, tx_loanId = None, tx_goalId = Some ''g1'',
       tx_createdAt = ''2025-01-15T10:00:00.000Z'', tx_updatedAt = ''2025-01-15T10:00:00.000Z'' \<rparr>"

text \<open>Rows of another owner, \<open>u2\<close>, that name account \<open>a1\<close> of owner \<open>u1\<close>.\<close>

definition ex_account_other :: account where
  "ex_account_other = \<lparr> acc_id = ''b1'', acc_userId = ''u2'', initialBalance = 70,
                         isActive = True, includeInTotal = True \<rparr>"

definition ex_foreign_income :: txn where
  "ex_foreign_income =
     \<lparr> tx_id = ''x1'', tx_userId = ''u2'', tx_accountId = ''a1'', tx_categoryId = None,
       tx_type = Income, tx_amount = 999, tx_description = None,
       tx_date = ''2025-01-20'', tx_debtId = None, tx_loanId = None, tx_goalId = Some ''g1'',
       tx_createdAt = ''2025-01-20T10:00:00.000Z'', tx_updatedAt = ''2025-01-20T10:00:00.000Z'' \<rparr>"

definition ex_foreign_transfer :: transfer where
  "ex_foreign_transfer = \<lparr> tr_id = ''x2'', tr_userId = ''u2'', fromAccountId = ''b1'',
                            toAccountId = ''a1'', tr_amount = 500, fee = None \<rparr>"

section \<open>Balance: basic facts\<close>

lemma or_zero_id: "or_zero x = x"
  by (simp add: or_zero_def)

lemma foldl_add_sum_list: "foldl (\<lambda>s v. s + f v) (z::real) xs = z + sum_list (map f xs)"
  by (induction xs arbitrary: z) simp_all

lemma sum_list_map_add:
  "sum_list (map (\<lambda>t. f t + g t) xs) = sum_list (map f xs) + (sum_list (map g xs) :: real)"
  by (induction xs) simp_all

text \<open>The per-account balance of the account list is the narrow-mode formula.\<close>

lemma account_with_balance_spec:
  "av_balance (account_with_balance txs trs userId a) = spec_balance narrowDebit txs trs userId a"
proof -
  have c1: "(\<lambda>t. tx_accountId t = acc_id a \<and> tx_userId t = userId \<and> tx_type t = Income)
          = (\<lambda>t. tx_userId t = userId \<and> tx_accountId t = acc_id a \<and> tx_type t = Income)"
    by auto
  have c2: "(\<lambda>t. tx_accountId t = acc_id a \<and> tx_userId t = userId \<and> tx_type t = Expense)
          = (\<lambda>t. tx_userId t = userId \<and> tx_accountId t = acc_id a \<and> tx_type t = Expense)"
    by auto
  have c3: "(\<lambda>t. toAccountId t = acc_id a \<and> tr_userId t = userId)
          = (\<lambda>t. tr_userId t = userId \<and> toAccountId t = acc_id a)"
    by auto
  have c4: "(\<lambda>t. fromAccountId t = acc_id a \<and> tr_userId t = userId)
          = (\<lambda>t. tr_userId t = userId \<and> fromAccountId t = acc_id a)"
    by auto
  show ?thesis
    unfolding account_with_balance_def spec_balance_def narrowDebit_def Let_def or_zero_id
      sum_amount_def sum_transfer_amount_def sum_transfer_amount_fee_def c1 c2 c3 c4
    by (simp add: sum_list_map_add)
qed

text \<open>Insertion order of the ledger rows does not change it.\<close>

lemma sum_list_filter_mset:
  assumes "mset xs = mset ys"
  shows "sum_list (map f (filter P xs)) = (sum_list (map f (filter P ys)) :: real)"
proof -
  have "mset (map f (filter P xs)) = mset (map f (filter P ys))"
    by (simp add: assms)
  then show ?thesis
    by (metis sum_mset_sum_list)
qed

lemma account_with_balance_perm:
  assumes "mset txs = mset txs'" and "mset trs = mset trs'"
  shows "av_balance (account_with_balance txs trs userId a)
       = av_balance (account_with_balance txs' trs' userId a)"
  unfolding account_with_balance_def Let_def sum_amount_def sum_transfer_amount_def
    sum_transfer_amount_fee_def
  by (simp add: sum_list_filter_mset [OF assms(1)] sum_list_filter_mset [OF assms(2)])

lemma account_with_balance_no_entries:
  "av_balance (account_with_balance [] [] userId a) = initialBalance a"
  by (simp add: account_with_balance_def sum_amount_def sum_transfer_amount_def
      sum_transfer_amount_fee_def or_zero_def)

text \<open>Without transfers, the dashboard balance is the all-outflow formula.\<close>

lemma calculateAccountBalance_debits:
  "calculateAccountBalance txs (acc_id a) userId (initialBalance a)
     = spec_balance allOutflow txs [] userId a"
proof -
  have c1: "(\<lambda>t. tx_accountId t = acc_id a \<and> tx_userId t = userId \<and> tx_type t = Income)
          = (\<lambda>t. tx_userId t = userId \<and> tx_accountId t = acc_id a \<and> tx_type t = Income)"
    by auto
  have c2: "(\<lambda>t. tx_accountId t = acc_id a \<and> tx_userId t = userId
                  \<and> (tx_type t = Expense \<or> tx_type t = DebtPayment
                       \<or> tx_type t = GoalContribution \<or> tx_type t = LoanPayment))
          = (\<lambda>t. tx_userId t = userId \<and> tx_accountId t = acc_id a \<and> allOutflow (tx_type t))"
    by (auto simp: allOutflow_def)
  show ?thesis
    unfolding calculateAccountBalance_def spec_balance_def or_zero_id sum_amount_def c1 c2
    by simp
qed

section \<open>Progress projections: lemmas\<close>

lemma spec_progress_clamp:
  assumes "0 < target" "0 \<le> accumulated"
  shows "0 \<le> spec_progress target accumulated" "spec_progress target accumulated \<le> 100"
    "spec_progress target accumulated = 100 \<longleftrightarrow> target \<le> accumulated"
proof -
  have p: "0 \<le> accumulated / target * 100"
    using assms by simp
  show "0 \<le> spec_progress target accumulated"
    using p by (simp add: spec_progress_def)
  show "spec_progress target accumulated \<le> 100"
    by (simp add: spec_progress_def)
  have "100 \<le> accumulated / target * 100 \<longleftrightarrow> target \<le> accumulated"
    using assms(1) by (simp add: field_simps)
  then show "spec_progress target accumulated = 100 \<longleftrightarrow> target \<le> accumulated"
    by (auto simp: spec_progress_def min_def)
qed

lemma capped_percentage:
  assumes "0 < target"
  shows "json_number (math_min_100 (percentage accumulated target))
           = Some (spec_progress target accumulated)"
  using assms
  by (simp add: percentage_def math_min_100_def json_number_def spec_progress_def min.commute)

lemma goal_progress_spec:
  assumes "0 < targetAmount g"
  shows "pj_progress (goal_projection txs userId g)
           = Some (spec_progress (targetAmount g) (pj_current (goal_projection txs userId g)))"
  using capped_percentage [OF assms] by (simp add: goal_projection_def Let_def)

lemma debt_progress_spec:
  assumes "0 < principalAmount d"
  shows "pj_progress (debt_projection txs userId d)
           = Some (spec_progress (principalAmount d) (pj_current (debt_projection txs userId d)))"
  using capped_percentage [OF assms] by (simp add: debt_projection_def Let_def)

lemma loan_progress_spec:
  assumes "0 < loan_principalAmount l"
  shows "pj_progress (loan_projection txs userId l)
           = Some (spec_progress (loan_principalAmount l) (pj_current (loan_projection txs userId l)))"
  using capped_percentage [OF assms] by (simp add: loan_projection_def Let_def)

lemma math_round_bounds:
  "\<bar>real_of_int (math_round x) - x\<bar> \<le> 1 / 2"
  unfolding math_round_def by linarith

lemma math_round_mono: "x \<le> y \<Longrightarrow> math_round x \<le> math_round y"
  unfolding math_round_def by (intro floor_mono) simp

lemma math_round_int: "math_round (real_of_int n) = n"
  unfolding math_round_def by linarith

lemma dashboard_progress_round:
  assumes "0 < targetAmount g" "0 \<le> dg_currentAmount (dashboard_goal_projection txs userId g)"
  shows "dg_progress (dashboard_goal_projection txs userId g)
           = Some (math_round (dg_currentAmount (dashboard_goal_projection txs userId g)
                                 / targetAmount g * 100))"
    "0 \<le> math_round (dg_currentAmount (dashboard_goal_projection txs userId g)
                        / targetAmount g * 100)"
    "targetAmount g \<le> dg_currentAmount (dashboard_goal_projection txs userId g) \<Longrightarrow>
       100 \<le> math_round (dg_currentAmount (dashboard_goal_projection txs userId g)
                            / targetAmount g * 100)"
proof -
  let ?c = "dg_currentAmount (dashboard_goal_projection txs userId g)"
  show "dg_progress (dashboard_goal_projection txs userId g)
          = Some (math_round (?c / targetAmount g * 100))"
    using assms(1)
    by (simp add: dashboard_goal_projection_def Let_def percentage_def json_rounded_def)
  have "0 \<le> ?c / targetAmount g * 100"
    using assms by simp
  then have "math_round 0 \<le> math_round (?c / targetAmount g * 100)"
    by (rule math_round_mono)
  then show "0 \<le> math_round (?c / targetAmount g * 100)"
    using math_round_int [of 0] by simp
  assume "targetAmount g \<le> ?c"
  then have "100 \<le> ?c / targetAmount g * 100"
    using assms(1) by (simp add: field_simps)
  then have "math_round 100 \<le> math_round (?c / targetAmount g * 100)"
    by (rule math_round_mono)
  then show "100 \<le> math_round (?c / targetAmount g * 100)"
    using math_round_int [of 100] by simp
qed

lemma ex_goal_fields: "goal_id (ex_goal target) = ''g1''" "targetAmount (ex_goal target) = target"
  by (simp_all add: ex_goal_def)

lemma ex_goal_sum:
  "sum_amount (\<lambda>t. tx_userId t = ''u1'' \<and> tx_goalId t = Some ''g1''
                    \<and> tx_type t = GoalContribution)
     [ex_contribution tid1 a, ex_contribution tid2 b] = a + b"
  "sum_amount (\<lambda>t. tx_userId t = ''u1'' \<and> tx_goalId t = Some ''g1''
                    \<and> tx_type t = GoalContribution)
     [ex_contribution tid1 a] = a"
  by (simp_all add: sum_amount_def ex_contribution_def)

lemma math_round_examples: "math_round (498 / 5) = 100" "math_round 40 = 40"
  unfolding math_round_def by linarith+

section \<open>Calendar: correctness of the day-number functions\<close>

lemma day_from_year_mono:
  assumes "y \<le> y'"
  shows "day_from_year y \<le> day_from_year y'"
  using assms
proof (induction y' rule: int_ge_induct)
  case base
  show ?case by simp
next
  case (step i)
  have "day_from_year i < day_from_year (i + 1)" by (rule day_from_year_less)
  with step.IH show ?case by simp
qed

lemma year_down_le: "day_from_year (year_down y z) \<le> z"
proof (induction y z rule: year_down.induct)
  case (1 y z)
  show ?case
  proof (cases "z < day_from_year y")
    case True
    then show ?thesis using 1 by (subst year_down.simps) simp
  next
    case False
    then show ?thesis by (subst year_down.simps) simp
  qed
qed

lemma year_up_bounds:
  assumes "day_from_year y \<le> z"
  shows "day_from_year (year_up y z) \<le> z \<and> z < day_from_year (year_up y z + 1)"
  using assms
proof (induction y z rule: year_up.induct)
  case (1 y z)
  show ?case
  proof (cases "day_from_year (y + 1) \<le> z")
    case True
    then show ?thesis using 1 by (subst (1 2) year_up.simps) simp
  next
    case False
    then show ?thesis using 1(2) by (subst (1 2) year_up.simps) simp
  qed
qed

lemma year_from_day_bounds:
  "day_from_year (year_from_day z) \<le> z \<and> z < day_from_year (year_from_day z + 1)"
  unfolding year_from_day_def by (rule year_up_bounds) (rule year_down_le)

lemma year_from_day_unique:
  assumes "day_from_year y \<le> z" "z < day_from_year (y + 1)"
  shows "year_from_day z = y"
proof (rule ccontr)
  assume ne: "year_from_day z \<noteq> y"
  let ?y = "year_from_day z"
  have b: "day_from_year ?y \<le> z" "z < day_from_year (?y + 1)"
    using year_from_day_bounds by simp_all
  show False
  proof (cases "?y < y")
    case True
    then have "day_from_year (?y + 1) \<le> day_from_year y"
      by (intro day_from_year_mono) simp
    with b(2) assms(1) show False by simp
  next
    case False
    with ne have "y + 1 \<le> ?y" by simp
    then have "day_from_year (y + 1) \<le> day_from_year ?y"
      by (rule day_from_year_mono)
    with b(1) assms(2) show False by simp
  qed
qed

lemma month_cases:
  fixes m :: int
  assumes "0 \<le> m" "m \<le> 11"
  shows "m = 0 \<or> m = 1 \<or> m = 2 \<or> m = 3 \<or> m = 4 \<or> m = 5 \<or> m = 6 \<or> m = 7 \<or> m = 8
         \<or> m = 9 \<or> m = 10 \<or> m = 11"
  using assms by arith

lemma month_from_month_start:
  assumes "0 \<le> m" "m \<le> 11" "0 \<le> k" "k < days_in_month leap m"
  shows "month_from_day_in_year leap (month_start leap m + k) = m"
  using month_cases [OF assms(1,2)] assms(3,4)
  by (cases leap; elim disjE; simp add: month_from_day_in_year_def month_start_def days_in_month_def)

lemma month_start_in_year:
  assumes "0 \<le> m" "m \<le> 11" "0 \<le> k" "k < days_in_month leap m"
  shows "0 \<le> month_start leap m + k" "month_start leap m + k < (if leap then 366 else 365)"
  using month_cases [OF assms(1,2)] assms(3,4)
  by (cases leap; elim disjE; simp add: month_start_def days_in_month_def)+

lemma make_day_valid:
  assumes "valid_date y m d"
  shows "getFullYear (make_day y m d) = y" "getMonth (make_day y m d) = m"
    "getDate (make_day y m d) = d"
proof -
  have m: "0 \<le> m" "m \<le> 11" and d: "0 \<le> d - 1" "d - 1 < days_in_month (in_leap_year y) m"
    using assms by (simp_all add: valid_date_def)
  have md: "make_day y m d = day_from_year y + (month_start (in_leap_year y) m + (d - 1))"
    using m by (simp add: make_day_def Let_def)
  have lo: "day_from_year y \<le> make_day y m d"
    unfolding md using month_start_in_year(1) [OF m d] by simp
  have hi: "make_day y m d < day_from_year (y + 1)"
    unfolding md day_from_year_step using month_start_in_year(2) [OF m d] by simp
  have yr: "year_from_day (make_day y m d) = y"
    by (rule year_from_day_unique [OF lo hi])
  show "getFullYear (make_day y m d) = y"
    by (simp add: getFullYear_def yr)
  have mo: "month_from_day_in_year (in_leap_year y) (make_day y m d - day_from_year y) = m"
    unfolding md using month_from_month_start [OF m d] by simp
  show gm: "getMonth (make_day y m d) = m"
    by (simp add: getMonth_def yr mo)
  show "getDate (make_day y m d) = d"
    unfolding getDate_def gm yr by (simp add: md)
qed

text \<open>Whatever the day, reading a date back and rebuilding it gives the same day.\<close>

lemma month_from_day_in_year_range:
  "0 \<le> month_from_day_in_year leap k \<and> month_from_day_in_year leap k \<le> 11"
  by (simp add: month_from_day_in_year_def Let_def)

lemma make_day_get: "make_day (getFullYear z) (getMonth z) (getDate z) = z"
proof -
  have r: "0 \<le> getMonth z" "getMonth z \<le> 11"
    using month_from_day_in_year_range by (simp_all add: getMonth_def)
  show ?thesis
    using r by (simp add: make_day_def Let_def getDate_def getFullYear_def)
qed

lemma make_day_add: "make_day y m (d + k) = make_day y m d + k"
  by (simp add: make_day_def Let_def)

lemma setDate_add: "setDate z (getDate z + k) = z + k"
  by (simp add: setDate_def make_day_add make_day_get)

lemma toISODate_make_day:
  assumes "valid_date y m d" "0 \<le> y" "y \<le> 9999"
  shows "toISODate (make_day y m d)
           = pad_digits 4 (nat y) @ ''-'' @ pad_digits 2 (nat (m + 1)) @ ''-'' @ pad_digits 2 (nat d)"
  using assms(2,3) by (simp add: toISODate_def iso_date_def make_day_valid [OF assms(1)])

lemma pads:
  "pad_digits 4 2024 = ''2024''" "pad_digits 4 2025 = ''2025''"
  "pad_digits 2 (Suc 0) = ''01''" "pad_digits 2 1 = ''01''" "pad_digits 2 2 = ''02''" "pad_digits 2 3 = ''03''"
  "pad_digits 2 4 = ''04''" "pad_digits 2 5 = ''05''" "pad_digits 2 6 = ''06''"
  "pad_digits 2 7 = ''07''" "pad_digits 2 8 = ''08''" "pad_digits 2 9 = ''09''"
  "pad_digits 2 10 = ''10''" "pad_digits 2 11 = ''11''" "pad_digits 2 12 = ''12''"
  "pad_digits 2 14 = ''14''" "pad_digits 2 15 = ''15''" "pad_digits 2 22 = ''22''"
  "pad_digits 2 31 = ''31''"
  "pad_digits 4 2026 = ''2026''"
  by code_simp+

lemma month_start_le:
  assumes "0 \<le> k"
  shows "month_start leap (month_from_day_in_year leap k) \<le> k"
  using assms by (cases leap; simp add: month_from_day_in_year_def month_start_def)

lemma getDate_ge_1: "1 \<le> getDate z"
proof -
  have "0 \<le> z - day_from_year (year_from_day z)"
    using year_from_day_bounds [of z] by simp
  then show ?thesis
    unfolding getDate_def getMonth_def by (simp add: month_start_le)
qed

lemma getMonth_range: "0 \<le> getMonth z" "getMonth z \<le> 11"
  using month_from_day_in_year_range by (simp_all add: getMonth_def)

lemma make_day_carry: "make_day y m d = make_day (y + m div 12) (m mod 12) d"
  by (simp add: make_day_def Let_def)

subsection \<open>Every day number is a date of the calendar\<close>

lemma day_in_month_bound:
  assumes "0 \<le> k" "k < (if leap then 366 else 365)"
  shows "k - month_start leap (month_from_day_in_year leap k)
           < days_in_month leap (month_from_day_in_year leap k)"
  using assms
  by (cases leap; simp add: month_from_day_in_year_def month_start_def days_in_month_def)

lemma civil_valid: "valid_date (getFullYear z) (getMonth z) (getDate z)"
proof -
  let ?y = "year_from_day z"
  let ?k = "z - day_from_year ?y"
  have k: "0 \<le> ?k" "?k < (if in_leap_year ?y then 366 else 365)"
    using year_from_day_bounds [of z] by (simp_all add: day_from_year_step)
  have "?k - month_start (in_leap_year ?y) (month_from_day_in_year (in_leap_year ?y) ?k)
          < days_in_month (in_leap_year ?y) (month_from_day_in_year (in_leap_year ?y) ?k)"
    by (rule day_in_month_bound [OF k])
  then have "getDate z \<le> days_in_month (in_leap_year ?y) (getMonth z)"
    by (simp add: getDate_def getMonth_def)
  then show ?thesis
    using getDate_ge_1 [of z] getMonth_range [of z] by (simp add: valid_date_def getFullYear_def)
qed

lemma days_in_month_range: "28 \<le> days_in_month leap m" "days_in_month leap m \<le> 31"
  by (simp_all add: days_in_month_def)

lemma getDate_le_31: "getDate z \<le> 31"
  using civil_valid [of z] days_in_month_range(2) [of "in_leap_year (getFullYear z)" "getMonth z"]
  by (simp add: valid_date_def)

subsection \<open>A day the month lacks\<close>

lemma month_start_next:
  assumes "0 \<le> m" "m \<le> 10"
  shows "month_start leap (m + 1) = month_start leap m + days_in_month leap m"
proof -
  have "m = 0 \<or> m = 1 \<or> m = 2 \<or> m = 3 \<or> m = 4 \<or> m = 5 \<or> m = 6 \<or> m = 7 \<or> m = 8
         \<or> m = 9 \<or> m = 10"
    using assms by arith
  then show ?thesis
    by (cases leap; elim disjE; simp add: month_start_def days_in_month_def)
qed

text \<open>
  For a day of the month from 1 to 31, the year, month and day of \<open>MakeDay\<close> are the
  calendar date \<open>carried_date\<close>.
\<close>

lemma make_day_carried:
  assumes "1 \<le> d" "d \<le> 31"
  shows "(getFullYear (make_day y m d), getMonth (make_day y m d), getDate (make_day y m d))
           = carried_date y m d"
proof -
  let ?y = "y + m div 12"
  let ?m = "m mod 12"
  let ?n = "days_in_month (in_leap_year ?y) ?m"
  have m: "0 \<le> ?m" "?m \<le> 11"
    by simp_all
  show ?thesis
  proof (cases "d \<le> ?n")
    case True
    then have v: "valid_date ?y ?m d"
      using assms(1) m by (simp add: valid_date_def)
    show ?thesis
      unfolding make_day_carry [of y m] using True
      by (simp add: make_day_valid [OF v] carried_date_def Let_def)
  next
    case False
    have ne: "?m \<noteq> 11"
    proof
      assume "?m = 11"
      then have "?n = 31" by (simp add: days_in_month_def)
      with False assms(2) show False by simp
    qed
    then have m10: "?m \<le> 10" using m(2) by simp
    have e: "make_day ?y ?m d = make_day ?y (?m + 1) (d - ?n)"
      using m(1) m10 by (simp add: make_day_def Let_def month_start_next)
    have "d - ?n \<le> 3"
      using assms(2) days_in_month_range(1) [of "in_leap_year ?y" ?m] by simp
    then have "d - ?n \<le> days_in_month (in_leap_year ?y) (?m + 1)"
      using days_in_month_range(1) [of "in_leap_year ?y" "?m + 1"] by simp
    then have v: "valid_date ?y (?m + 1) (d - ?n)"
      using False m(1) m10 by (simp add: valid_date_def)
    show ?thesis
      unfolding make_day_carry [of y m] e using False
      by (simp add: make_day_valid [OF v] carried_date_def Let_def)
  qed
qed

lemma toISODate_carried:
  assumes "1 \<le> d" "d \<le> 31"
  shows "toISODate (make_day y m d) = iso_date (carried_date y m d)"
  by (simp add: toISODate_def make_day_carried [OF assms])

lemma carried_date_year: "fst (carried_date y m d) = y + m div 12"
  by (simp add: carried_date_def Let_def)

subsection \<open>The range of \<open>Date\<close>\<close>

lemma in_date_range_year:
  assumes "- 270000 \<le> getFullYear z" "getFullYear z \<le> 270002"
  shows "in_date_range z"
proof -
  have lo: "day_from_year (- 270000) \<le> day_from_year (getFullYear z)"
    by (rule day_from_year_mono [OF assms(1)])
  have hi: "day_from_year (getFullYear z + 1) \<le> day_from_year 270003"
    by (rule day_from_year_mono) (use assms(2) in simp)
  have b: "day_from_year (getFullYear z) \<le> z" "z < day_from_year (getFullYear z + 1)"
    using year_from_day_bounds [of z] by (simp_all add: getFullYear_def)
  have n: "day_from_year (- 270000) = - 99335003" "day_from_year 270003 = 97897043"
    by (simp_all add: day_from_year_def)
  show ?thesis
    using lo hi b unfolding n by (simp add: in_date_range_def)
qed

lemma in_date_range_add:
  assumes "- 270000 \<le> getFullYear z" "getFullYear z \<le> 270000" "0 \<le> k" "k \<le> 14"
  shows "in_date_range (z + k)"
proof -
  have lo: "day_from_year (- 270000) \<le> day_from_year (getFullYear z)"
    by (rule day_from_year_mono [OF assms(1)])
  have hi: "day_from_year (getFullYear z + 1) \<le> day_from_year 270003"
    by (rule day_from_year_mono) (use assms(2) in simp)
  have b: "day_from_year (getFullYear z) \<le> z" "z < day_from_year (getFullYear z + 1)"
    using year_from_day_bounds [of z] by (simp_all add: getFullYear_def)
  have n: "day_from_year (- 270000) = - 99335003" "day_from_year 270003 = 97897043"
    by (simp_all add: day_from_year_def)
  show ?thesis
    using lo hi b assms(3,4) unfolding n by (simp add: in_date_range_def)
qed

lemma in_date_range_make_day:
  assumes "1 \<le> d" "d \<le> 31" "- 270000 \<le> y + m div 12" "y + m div 12 \<le> 270002"
  shows "in_date_range (make_day y m d)"
proof -
  have "getFullYear (make_day y m d) = fst (carried_date y m d)"
    using make_day_carried [OF assms(1,2), of y m] by (metis fst_conv)
  then have "getFullYear (make_day y m d) = y + m div 12"
    by (simp add: carried_date_year)
  then show ?thesis
    using assms(3,4) by (intro in_date_range_year) simp_all
qed

subsection \<open>Evaluated dates\<close>

lemma in_date_range_2025: "in_date_range (make_day 2025 m 1)" "in_date_range (make_day 2025 m 31)"
  "in_date_range (make_day 2024 m 15)" if "0 \<le> m" "m \<le> 11"
  using that by (simp_all add: in_date_range_make_day)

lemma date_fields_examples:
  "date_fields ''2025-01-31'' = Some (2025, 1, 31)"
  "date_fields ''2024-02-15'' = Some (2024, 2, 15)"
  "date_fields ''2025-03-31'' = Some (2025, 3, 31)"
  "date_fields ''2025-01-01'' = Some (2025, 1, 1)"
  by (simp_all add: date_fields_def matches_date_regex_def is_digit_def digits_val_def
      digit_val_def)

lemma parse_2025_01_31: "date_parse ''2025-01-31'' = Some (make_day 2025 0 31)"
  by (simp add: date_parse_def date_fields_examples time_clip_def in_date_range_2025)

lemma parse_2024_02_15: "date_parse ''2024-02-15'' = Some (make_day 2024 1 15)"
  by (simp add: date_parse_def date_fields_examples time_clip_def in_date_range_2025)

lemma parse_2025_03_31: "date_parse ''2025-03-31'' = Some (make_day 2025 2 31)"
  by (simp add: date_parse_def date_fields_examples time_clip_def in_date_range_2025)

lemma parse_2025_01_01: "date_parse ''2025-01-01'' = Some (make_day 2025 0 1)"
  by (simp add: date_parse_def date_fields_examples time_clip_def in_date_range_2025)

lemma leap_years: "\<not> in_leap_year 2025" "in_leap_year 2024" "\<not> in_leap_year 2026"
  by (simp_all add: in_leap_year_def)

lemma carried_examples:
  "carried_date 2025 1 31 = (2025, 2, 3)"
  "carried_date 2025 3 31 = (2025, 4, 1)"
  "carried_date 2025 5 31 = (2025, 6, 1)"
  "carried_date 2026 2 31 = (2026, 2, 31)"
  "carried_date 2025 1 15 = (2025, 1, 15)"
  "carried_date 2025 2 31 = (2025, 2, 31)"
  by (simp_all add: carried_date_def days_in_month_def leap_years)

lemma iso_examples:
  "iso_date (2025, 2, 3) = ''2025-03-03''"
  "iso_date (2025, 4, 1) = ''2025-05-01''"
  "iso_date (2025, 6, 1) = ''2025-07-01''"
  "iso_date (2026, 2, 31) = ''2026-03-31''"
  "iso_date (2025, 1, 15) = ''2025-02-15''"
  by (simp_all add: iso_date_def pads)

text \<open>The expanded-year form: the last day of the year 9999 and what follows it.\<close>

lemma date_fields_expanded:
  "date_fields ''+010000-12-31'' = Some (10000, 12, 31)"
  "date_fields ''9999-12-31'' = Some (9999, 12, 31)"
  by (simp_all add: date_fields_def matches_date_regex_def matches_expanded_date_def is_digit_def
      digits_val_def digit_val_def)

lemma parse_expanded:
  "date_parse ''+010000-12-31'' = Some (make_day 10000 11 31)"
  "date_parse ''9999-12-31'' = Some (make_day 9999 11 31)"
  by (simp_all add: date_parse_def date_fields_expanded time_clip_def in_date_range_make_day)

lemma pad_10000: "pad_digits 6 10000 = ''010000''"
proof -
  have s: "(6::nat) = Suc (Suc (Suc (Suc (Suc (Suc 0)))))"
    by simp
  show ?thesis
    unfolding s by (simp add: digit_char_def)
qed

subsection \<open>The advance of a due date\<close>

lemma parsed_date_fields:
  assumes "date_parse s = Some z"
  shows "case date_fields s of
           None \<Rightarrow> False
         | Some (y, m, d) \<Rightarrow>
             (getFullYear z, getMonth z, getDate z) = carried_date y (m - 1) d"
proof (cases "date_fields s")
  case None
  with assms show ?thesis by (simp add: date_parse_def)
next
  case (Some f)
  obtain y m d where f: "f = (y, m, d)" by (cases f) auto
  have r: "1 \<le> d" "d \<le> 31" and z: "z = make_day y (m - 1) d"
    using assms Some f by (simp_all add: date_parse_def time_clip_def split: if_splits)
  show ?thesis
    using Some f z make_day_carried [OF r, of y "m - 1"] by simp
qed

lemma advance_by_days:
  assumes "date_parse s = Some z" "- 270000 \<le> getFullYear z" "getFullYear z \<le> 270000"
    and "0 \<le> k" "k \<le> 14"
  shows "map_option toISODate (time_clip (setDate z (getDate z + k))) = Some (toISODate (z + k))"
  using in_date_range_add [OF assms(2-5)] by (simp add: setDate_add time_clip_def)

lemma advance_by_months:
  assumes "- 270000 \<le> getFullYear z" "getFullYear z \<le> 270000" "0 \<le> k" "k \<le> 12"
  shows "map_option toISODate (time_clip (setMonth z (getMonth z + k)))
           = Some (iso_date (carried_date (getFullYear z) (getMonth z + k) (getDate z)))"
proof -
  have d: "1 \<le> getDate z" "getDate z \<le> 31"
    by (rule getDate_ge_1, rule getDate_le_31)
  have "0 \<le> (getMonth z + k) div 12" "(getMonth z + k) div 12 \<le> 1"
    using getMonth_range [of z] assms(3,4) by simp_all
  then have "in_date_range (make_day (getFullYear z) (getMonth z + k) (getDate z))"
    using assms(1,2) by (intro in_date_range_make_day [OF d]) simp_all
  then show ?thesis
    by (simp add: setMonth_def time_clip_def toISODate_carried [OF d])
qed

lemma advance_by_year:
  assumes "- 270000 \<le> getFullYear z" "getFullYear z \<le> 270000"
  shows "map_option toISODate (time_clip (setFullYear z (getFullYear z + 1)))
           = Some (iso_date (carried_date (getFullYear z + 1) (getMonth z) (getDate z)))"
proof -
  have d: "1 \<le> getDate z" "getDate z \<le> 31"
    by (rule getDate_ge_1, rule getDate_le_31)
  have "getMonth z div 12 = 0"
    using getMonth_range [of z] by simp
  then have "in_date_range (make_day (getFullYear z + 1) (getMonth z) (getDate z))"
    using assms by (intro in_date_range_make_day [OF d]) simp_all
  then show ?thesis
    by (simp add: setFullYear_def time_clip_def toISODate_carried [OF d])
qed

lemma civil_2025_01_31:
  "getFullYear (make_day 2025 0 31) = 2025" "getMonth (make_day 2025 0 31) = 0"
  "getDate (make_day 2025 0 31) = 31"
  by (rule make_day_valid; simp add: valid_date_def days_in_month_def)+

lemma civil_2024_02_15:
  "getFullYear (make_day 2024 1 15) = 2024" "getMonth (make_day 2024 1 15) = 1"
  "getDate (make_day 2024 1 15) = 15"
  by (rule make_day_valid; simp add: valid_date_def days_in_month_def)+

lemma civil_2025_03_31:
  "getFullYear (make_day 2025 2 31) = 2025" "getMonth (make_day 2025 2 31) = 2"
  "getDate (make_day 2025 2 31) = 31"
  by (rule make_day_valid; simp add: valid_date_def days_in_month_def)+

lemma civil_2025_01_01:
  "getFullYear (make_day 2025 0 1) = 2025" "getMonth (make_day 2025 0 1) = 0"
  "getDate (make_day 2025 0 1) = 1"
  by (rule make_day_valid; simp add: valid_date_def days_in_month_def)+

lemma next_due_jan31_monthly: "getNextDueDate ''2025-01-31'' ''monthly'' = Some ''2025-03-03''"
  using advance_by_months [of "make_day 2025 0 31" 1]
  by (simp add: getNextDueDate_def parse_2025_01_31 civil_2025_01_31 carried_examples
      iso_examples)

lemma next_due_feb15_yearly: "getNextDueDate ''2024-02-15'' ''yearly'' = Some ''2025-02-15''"
  using advance_by_year [of "make_day 2024 1 15"]
  by (simp add: getNextDueDate_def parse_2024_02_15 civil_2024_02_15 carried_examples
      iso_examples)

lemma next_due_year_9999: "getNextDueDate ''9999-12-31'' ''yearly'' = Some ''+010000-12-31''"
proof -
  have c: "getFullYear (make_day 9999 11 31) = 9999" "getMonth (make_day 9999 11 31) = 11"
    "getDate (make_day 9999 11 31) = 31"
    by (rule make_day_valid; simp add: valid_date_def days_in_month_def)+
  have d: "carried_date 10000 11 31 = (10000, 11, 31)"
    by (simp add: carried_date_def days_in_month_def)
  show ?thesis
    using advance_by_year [of "make_day 9999 11 31"]
    by (simp add: getNextDueDate_def parse_expanded c d iso_date_def pad_10000 pads)
qed

section \<open>Owner scoping: every query reads the rows of its owner only\<close>

lemma filter_rows_of:
  assumes "\<And>r. P r \<Longrightarrow> owner r = u"
  shows "filter P (rows_of owner u rows) = filter P rows"
  unfolding rows_of_def using assms by (induction rows) auto

lemma find_rows_of:
  assumes "\<And>r. P r \<Longrightarrow> owner r = u"
  shows "find P (rows_of owner u rows) = find P rows"
  unfolding rows_of_def using assms by (induction rows) auto

lemma sum_amount_rows_of:
  assumes "\<forall>t. P t \<longrightarrow> tx_userId t = u"
  shows "sum_amount P (rows_of tx_userId u txs) = sum_amount P txs"
  using assms by (simp add: sum_amount_def filter_rows_of)

lemma sum_transfer_rows_of:
  assumes "\<forall>t. P t \<longrightarrow> tr_userId t = u"
  shows "sum_transfer_amount P (rows_of tr_userId u trs) = sum_transfer_amount P trs"
    "sum_transfer_amount_fee P (rows_of tr_userId u trs) = sum_transfer_amount_fee P trs"
  using assms
  by (simp_all add: sum_transfer_amount_def sum_transfer_amount_fee_def filter_rows_of)

lemma account_with_balance_rows_of:
  "account_with_balance (rows_of tx_userId u txs) (rows_of tr_userId u trs) u a
     = account_with_balance txs trs u a"
  by (simp add: account_with_balance_def Let_def sum_amount_rows_of sum_transfer_rows_of)

lemma accounts_get_list_rows_of:
  "accounts_get_list (rows_of acc_userId u accs) (rows_of tx_userId u txs)
       (rows_of tr_userId u trs) u inc
     = accounts_get_list accs txs trs u inc"
proof -
  have f: "filter (\<lambda>a. if inc then acc_userId a = u else acc_userId a = u \<and> isActive a)
             (rows_of acc_userId u accs)
         = filter (\<lambda>a. if inc then acc_userId a = u else acc_userId a = u \<and> isActive a) accs"
    by (rule filter_rows_of) (simp split: if_splits)
  have g: "account_with_balance (rows_of tx_userId u txs) (rows_of tr_userId u trs) u
             = account_with_balance txs trs u"
    by (rule ext) (rule account_with_balance_rows_of)
  show ?thesis
    unfolding accounts_get_list_def f g ..
qed

lemma accounts_get_one_rows_of:
  "accounts_get_one (rows_of acc_userId u accs) (rows_of tx_userId u txs) u aid
     = accounts_get_one accs txs u aid"
proof -
  have f: "find (\<lambda>a. acc_id a = aid \<and> acc_userId a = u) (rows_of acc_userId u accs)
         = find (\<lambda>a. acc_id a = aid \<and> acc_userId a = u) accs"
    by (rule find_rows_of) simp
  show ?thesis
    unfolding accounts_get_one_def f by (simp add: sum_amount_rows_of split: option.split)
qed

lemma calculateAccountBalance_rows_of:
  "calculateAccountBalance (rows_of tx_userId u txs) aid u b = calculateAccountBalance txs aid u b"
  by (simp add: calculateAccountBalance_def sum_amount_rows_of)

lemma dashboard_total_rows_of:
  "dashboard_total_balance (rows_of acc_userId u accs) (rows_of tx_userId u txs) u ids
     = dashboard_total_balance accs txs u ids"
proof -
  have f: "dashboard_accounts (rows_of acc_userId u accs) u ids = dashboard_accounts accs u ids"
    unfolding dashboard_accounts_def by (rule filter_rows_of) simp
  show ?thesis
    unfolding dashboard_total_balance_def f calculateAccountBalance_rows_of ..
qed

lemma period_total_rows_of:
  "period_total (rows_of tx_userId u txs) u ty a b = period_total txs u ty a b"
proof -
  have f: "filter (\<lambda>t. tx_userId t = u \<and> tx_type t = ty \<and> str_le a (tx_date t)
                        \<and> str_le (tx_date t) b) (rows_of tx_userId u txs)
         = filter (\<lambda>t. tx_userId t = u \<and> tx_type t = ty \<and> str_le a (tx_date t)
                        \<and> str_le (tx_date t) b) txs"
    by (rule filter_rows_of) simp
  show ?thesis
    unfolding period_total_def sum_amount_def f ..
qed

lemma goal_projection_rows_of:
  "goal_projection (rows_of tx_userId u txs) u g = goal_projection txs u g"
  "dashboard_goal_projection (rows_of tx_userId u txs) u g = dashboard_goal_projection txs u g"
  by (simp_all add: goal_projection_def dashboard_goal_projection_def Let_def sum_amount_rows_of)

lemma debt_projection_rows_of:
  "debt_projection (rows_of tx_userId u txs) u d = debt_projection txs u d"
  by (simp add: debt_projection_def Let_def sum_amount_rows_of)

lemma loan_projection_rows_of:
  "loan_projection (rows_of tx_userId u txs) u l = loan_projection txs u l"
  by (simp add: loan_projection_def Let_def sum_amount_rows_of)

lemma goals_get_list_rows_of:
  "goals_get_list (rows_of goal_userId u gs) (rows_of tx_userId u txs) u inc
     = goals_get_list gs txs u inc"
proof -
  have f: "filter (\<lambda>g. goal_userId g = u \<and> (if inc then True else \<not> goal_isCompleted g))
             (rows_of goal_userId u gs)
         = filter (\<lambda>g. goal_userId g = u \<and> (if inc then True else \<not> goal_isCompleted g)) gs"
    by (rule filter_rows_of) simp
  show ?thesis
    unfolding goals_get_list_def f goal_projection_rows_of ..
qed

lemma debts_get_list_rows_of:
  "debts_get_list (rows_of debt_userId u ds) (rows_of tx_userId u txs) u st
     = debts_get_list ds txs u st"
proof -
  have f: "filter (\<lambda>d. debt_userId d = u \<and>
                     (case st of None \<Rightarrow> True
                      | Some s \<Rightarrow> if s = [] then True else debt_status d = s))
             (rows_of debt_userId u ds)
         = filter (\<lambda>d. debt_userId d = u \<and>
                     (case st of None \<Rightarrow> True
                      | Some s \<Rightarrow> if s = [] then True else debt_status d = s)) ds"
    by (rule filter_rows_of) simp
  show ?thesis
    unfolding debts_get_list_def f debt_projection_rows_of ..
qed

lemma loans_get_list_rows_of:
  "loans_get_list (rows_of loan_userId u ls) (rows_of tx_userId u txs) u st
     = loans_get_list ls txs u st"
proof -
  have f: "filter (\<lambda>l. loan_userId l = u \<and>
                     (case st of None \<Rightarrow> True
                      | Some s \<Rightarrow> if s = [] then True else loan_status l = s))
             (rows_of loan_userId u ls)
         = filter (\<lambda>l. loan_userId l = u \<and>
                     (case st of None \<Rightarrow> True
                      | Some s \<Rightarrow> if s = [] then True else loan_status l = s)) ls"
    by (rule filter_rows_of) simp
  show ?thesis
    unfolding loans_get_list_def f loan_projection_rows_of ..
qed

section \<open>Scheduled payments: lemmas\<close>

lemma markOverdue_length: "length (markOverduePayments ps userId now) = length ps"
  by (simp add: markOverduePayments_def)

lemma markOverdue_nth:
  "i < length ps \<Longrightarrow>
   markOverduePayments ps userId now ! i =
     (if sp_userId (ps ! i) = userId \<and> status (ps ! i) = Pending
         \<and> str_le (dueDate (ps ! i)) (date_part now)
      then (ps ! i)\<lparr>status := Overdue, sp_updatedAt := now\<rparr> else ps ! i)"
  by (simp add: markOverduePayments_def)

lemma markOverdue_idem:
  "date_part now' = date_part now \<Longrightarrow>
   markOverduePayments (markOverduePayments ps userId now) userId now'
     = markOverduePayments ps userId now"
  by (simp add: markOverduePayments_def)


lemma find_payment_SomeD:
  assumes "find_payment ps userId pid = Some p"
  shows "p \<in> set ps" "sp_id p = pid" "sp_userId p = userId"
  using assms unfolding find_payment_def
  by (auto simp: find_Some_iff)

lemma find_map_preserving:
  assumes "\<And>x. P (f x) = P x"
  shows "find P (map f xs) = map_option f (find P xs)"
  using assms by (induction xs) simp_all

lemma find_append_Some: "find P xs = Some x \<Longrightarrow> find P (xs @ ys) = Some x"
  by (induction xs) (auto split: if_splits)

lemma find_payment_after_mark:
  assumes "find_payment ps userId pid = Some p"
    and g: "\<And>q. sp_id (g q) = sp_id q \<and> sp_userId (g q) = sp_userId q"
  shows "find_payment (map (\<lambda>q. if sp_id q = pid then g q else q) ps @ extra) userId pid
           = Some (g p)"
proof -
  let ?f = "\<lambda>q. if sp_id q = pid then g q else q"
  have "find (\<lambda>p. sp_id p = pid \<and> sp_userId p = userId) (map ?f ps)
          = map_option ?f (find (\<lambda>p. sp_id p = pid \<and> sp_userId p = userId) ps)"
    by (rule find_map_preserving) (simp add: g)
  then have "find_payment (map ?f ps) userId pid = Some (?f p)"
    using assms(1) by (simp add: find_payment_def)
  moreover have "sp_id p = pid" using assms(1) by (rule find_payment_SomeD)
  ultimately show ?thesis
    by (simp add: find_payment_def find_append_Some)
qed

lemma pay_terminal:
  assumes "find_payment (payments d) userId pid = Some p"
    and "status p = Paid \<or> status p = Cancelled"
  shows "pay d userId pid body now nextId txId = (d, Inl InvalidTransition)"
  using assms by (auto simp: pay_def)



lemma post_settlement_payments:
  "payments (fst (post_settlement d p userId txId pdate pamount now np)) = payments d"
  by (simp add: post_settlement_def Let_def split: option.splits)

lemma post_settlement_ledger:
  "ledger (fst (post_settlement d p userId txId pdate pamount now np)) =
     ledger d @ (case truthy (sp_accountId p) of None \<Rightarrow> []
                 | Some a \<Rightarrow> [settlement_transaction p userId txId a pamount pdate now])"
  by (simp add: post_settlement_def Let_def split: option.splits)

lemma post_settlement_result:
  "\<exists>resp. snd (post_settlement d p userId txId pdate pamount now np) = Inr resp
          \<and> pr_nextPayment resp = np"
  by (simp add: post_settlement_def Let_def split: option.splits)

lemma pay_active_payments:
  assumes "find_payment (payments d) userId pid = Some p"
    and "status p \<noteq> Paid" "status p \<noteq> Cancelled"
  shows "payments (fst (pay d userId pid body now nextId txId)) =
           mark_paid (payments d) pid (paid_date body now) (paid_amount body p) now
           @ (case snd (pay d userId pid body now nextId txId) of
                Inl e \<Rightarrow> []
              | Inr resp \<Rightarrow> (case pr_nextPayment resp of None \<Rightarrow> [] | Some np \<Rightarrow> [np]))"
proof (cases "if isRecurring p \<and> createNextRecurrence body
              then truthy (recurringFrequency p) else None")
  case None
  obtain resp where r: "snd (post_settlement
      (d\<lparr>payments := mark_paid (payments d) pid (paid_date body now) (paid_amount body p) now\<rparr>)
      p userId txId (paid_date body now) (paid_amount body p) now None) = Inr resp"
    "pr_nextPayment resp = None"
    using post_settlement_result by blast
  show ?thesis
    using assms None r by (simp add: pay_def Let_def post_settlement_payments)
next
  case (Some frequency)
  show ?thesis
  proof (cases "getNextDueDate (dueDate p) frequency")
    case None
    then show ?thesis
      using assms Some by (simp add: pay_def Let_def)
  next
    case (Some nextDueDate)
    let ?np = "next_payment p userId nextId nextDueDate now"
    let ?d1 = "d\<lparr>payments := mark_paid (payments d) pid (paid_date body now) (paid_amount body p) now\<rparr>"
    obtain resp where r: "snd (post_settlement (?d1\<lparr>payments := payments ?d1 @ [?np]\<rparr>)
        p userId txId (paid_date body now) (paid_amount body p) now (Some ?np)) = Inr resp"
      "pr_nextPayment resp = Some ?np"
      using post_settlement_result by blast
    show ?thesis
      using assms \<open>(if isRecurring p \<and> createNextRecurrence body
              then truthy (recurringFrequency p) else None) = Some frequency\<close> Some r
      by (simp add: pay_def Let_def post_settlement_payments)
  qed
qed

lemma pay_active_ledger:
  assumes "find_payment (payments d) userId pid = Some p"
    and "status p \<noteq> Paid" "status p \<noteq> Cancelled"
  shows "ledger (fst (pay d userId pid body now nextId txId)) =
           ledger d
           @ (case snd (pay d userId pid body now nextId txId) of
                Inl e \<Rightarrow> []
              | Inr resp \<Rightarrow>
                  (case truthy (sp_accountId p) of
                     None \<Rightarrow> []
                   | Some a \<Rightarrow> [settlement_transaction p userId txId a (paid_amount body p)
                                   (paid_date body now) now]))"
proof (cases "if isRecurring p \<and> createNextRecurrence body
              then truthy (recurringFrequency p) else None")
  case None
  obtain resp where r: "snd (post_settlement
      (d\<lparr>payments := mark_paid (payments d) pid (paid_date body now) (paid_amount body p) now\<rparr>)
      p userId txId (paid_date body now) (paid_amount body p) now None) = Inr resp"
    using post_settlement_result by blast
  show ?thesis
    using assms None r by (simp add: pay_def Let_def post_settlement_ledger)
next
  case (Some frequency)
  show ?thesis
  proof (cases "getNextDueDate (dueDate p) frequency")
    case None
    then show ?thesis
      using assms Some by (simp add: pay_def Let_def)
  next
    case (Some nextDueDate)
    let ?np = "next_payment p userId nextId nextDueDate now"
    let ?d1 = "d\<lparr>payments := mark_paid (payments d) pid (paid_date body now) (paid_amount body p) now\<rparr>"
    obtain resp where r: "snd (post_settlement (?d1\<lparr>payments := payments ?d1 @ [?np]\<rparr>)
        p userId txId (paid_date body now) (paid_amount body p) now (Some ?np)) = Inr resp"
      using post_settlement_result by blast
    show ?thesis
      using assms \<open>(if isRecurring p \<and> createNextRecurrence body
              then truthy (recurringFrequency p) else None) = Some frequency\<close> Some r
      by (simp add: pay_def Let_def post_settlement_ledger)
  qed
qed

lemma find_payment_mark_paid:
  assumes "find_payment ps userId pid = Some p"
  shows "find_payment (mark_paid ps pid pdate pamount now @ extra) userId pid
           = Some (p\<lparr>status := Paid, paidDate := Some pdate, paidAmount := Some pamount,
                     sp_updatedAt := now\<rparr>)"
  unfolding mark_paid_def
  by (rule find_payment_after_mark [OF assms]) simp

lemma pay_second_attempt:
  assumes "find_payment (payments d) userId pid = Some p"
    and "status p \<noteq> Paid" "status p \<noteq> Cancelled"
  shows "pay (fst (pay d userId pid body now nextId txId)) userId pid body' now' nextId' txId'
           = (fst (pay d userId pid body now nextId txId), Inl InvalidTransition)"
proof -
  let ?d1 = "fst (pay d userId pid body now nextId txId)"
  have "find_payment (payments ?d1) userId pid
          = Some (p\<lparr>status := Paid, paidDate := Some (paid_date body now),
                    paidAmount := Some (paid_amount body p), sp_updatedAt := now\<rparr>)"
    unfolding pay_active_payments [OF assms]
    by (rule find_payment_mark_paid [OF assms(1)])
  then show ?thesis
    by (rule pay_terminal) simp
qed


text \<open>The whole outcome of a settlement, when the next due date (if one is asked for) is computed.\<close>

lemma pay_without_recurrence:
  assumes "find_payment (payments d) userId pid = Some p"
    and "status p \<noteq> Paid" "status p \<noteq> Cancelled"
    and "(if isRecurring p \<and> createNextRecurrence body
          then truthy (recurringFrequency p) else None) = None"
  shows "pay d userId pid body now nextId txId =
           (d\<lparr>payments := mark_paid (payments d) pid (paid_date body now) (paid_amount body p) now,
               ledger := ledger d
                 @ (case truthy (sp_accountId p) of
                      None \<Rightarrow> []
                    | Some a \<Rightarrow> [settlement_transaction p userId txId a (paid_amount body p)
                                    (paid_date body now) now])\<rparr>,
            Inr \<lparr> pr_payment = p\<lparr>status := Paid, paidDate := Some (paid_date body now),
                                   paidAmount := Some (paid_amount body p)\<rparr>,
                  pr_nextPayment = None,
                  pr_transaction = (case truthy (sp_accountId p) of
                                      None \<Rightarrow> None | Some a \<Rightarrow> Some txId) \<rparr>)"
  using assms by (simp add: pay_def Let_def post_settlement_def split: option.split)

lemma pay_with_recurrence:
  assumes "find_payment (payments d) userId pid = Some p"
    and "status p \<noteq> Paid" "status p \<noteq> Cancelled"
    and "(if isRecurring p \<and> createNextRecurrence body
          then truthy (recurringFrequency p) else None) = Some f"
    and "getNextDueDate (dueDate p) f = Some nd"
  shows "pay d userId pid body now nextId txId =
           (d\<lparr>payments := mark_paid (payments d) pid (paid_date body now) (paid_amount body p) now
                              @ [next_payment p userId nextId nd now],
               ledger := ledger d
                 @ (case truthy (sp_accountId p) of
                      None \<Rightarrow> []
                    | Some a \<Rightarrow> [settlement_transaction p userId txId a (paid_amount body p)
                                    (paid_date body now) now])\<rparr>,
            Inr \<lparr> pr_payment = p\<lparr>status := Paid, paidDate := Some (paid_date body now),
                                   paidAmount := Some (paid_amount body p)\<rparr>,
                  pr_nextPayment = Some (next_payment p userId nextId nd now),
                  pr_transaction = (case truthy (sp_accountId p) of
                                      None \<Rightarrow> None | Some a \<Rightarrow> Some txId) \<rparr>)"
  using assms by (simp add: pay_def Let_def post_settlement_def split: option.split)

lemma date_part_ex_now: "date_part ex_now = ''2025-02-01''"
  by (simp add: date_part_def ex_now_def)

lemma ex_payment_fields:
  "sp_id ex_payment = ''p1''" "sp_userId ex_payment = ''u1''" "status ex_payment = Pending"
  "isRecurring ex_payment" "recurringFrequency ex_payment = Some ''monthly''"
  "dueDate ex_payment = ''2025-01-31''" "sp_accountId ex_payment = Some ''a1''"
  "sp_amount ex_payment = 100"
  by (simp_all add: ex_payment_def)


text \<open>
  The writes of a settlement are separate statements. For a recurring payment whose due
  date matches the validators' pattern but is no date, the advance throws after the row
  has been marked paid: the request fails, and the payment is paid with neither a clone
  nor a ledger entry.
\<close>

lemma settlement_not_atomic:
  "pay \<lparr>payments = [ex_payment\<lparr>dueDate := ''2025-13-01''\<rparr>], ledger = []\<rparr>
       ''u1'' ''p1'' ex_body ex_now ''p2'' ''t1''
     = (\<lparr>payments = [ex_payment\<lparr>dueDate := ''2025-13-01'', status := Paid,
                                    paidDate := Some ''2025-02-01'', paidAmount := Some 100,
                                    sp_updatedAt := ex_now\<rparr>],
         ledger = []\<rparr>, Inl ServerError)"
proof -
  have g: "getNextDueDate ''2025-13-01'' ''monthly'' = None"
    by (simp add: getNextDueDate_def date_parse_def date_fields_def matches_date_regex_def
        is_digit_def digits_val_def digit_val_def)
  show ?thesis
    by (simp add: pay_def find_payment_def mark_paid_def paid_date_def paid_amount_def
        truthy_def ex_body_def date_part_ex_now ex_payment_fields g Let_def)
qed

lemma distinct_ids_nth:
  assumes "distinct (map sp_id ps)" "i < length ps" "p \<in> set ps" "sp_id p = sp_id (ps ! i)"
  shows "p = ps ! i"
proof -
  have "inj_on sp_id (set ps)"
    using assms(1) by (simp add: distinct_map)
  moreover have "ps ! i \<in> set ps"
    using assms(2) by simp
  ultimately show ?thesis
    using assms(3,4) by (auto dest: inj_onD)
qed

lemma found_is_nth:
  assumes "distinct (map sp_id ps)" "i < length ps"
    and "find_payment ps userId pid = Some p" "sp_id (ps ! i) = pid"
  shows "p = ps ! i"
  using distinct_ids_nth [OF assms(1,2)] find_payment_SomeD [OF assms(3)] assms(4)
  by simp

lemma sweep_keeps_terminal:
  assumes "i < length ps" "status (ps ! i) = Paid \<or> status (ps ! i) = Cancelled"
  shows "status (markOverduePayments ps userId now ! i) = status (ps ! i)"
  using assms by (auto simp: markOverduePayments_def)

lemma cancel_keeps_terminal:
  assumes "distinct (map sp_id ps)" "i < length ps"
    and "status (ps ! i) = Paid \<or> status (ps ! i) = Cancelled"
  shows "status (fst (cancel ps userId pid now) ! i) = status (ps ! i)"
proof (cases "find_payment ps userId pid")
  case None
  then show ?thesis by (simp add: cancel_def)
next
  case (Some p)
  show ?thesis
  proof (cases "sp_id (ps ! i) = pid")
    case True
    then have "p = ps ! i"
      using found_is_nth [OF assms(1,2) Some] by simp
    then show ?thesis
      using assms(2,3) Some by (auto simp: cancel_def)
  next
    case False
    then show ?thesis
      using assms(2) Some by (simp add: cancel_def)
  qed
qed

lemma pay_keeps_terminal:
  assumes "distinct (map sp_id (payments d))" "i < length (payments d)"
    and "status (payments d ! i) = Paid \<or> status (payments d ! i) = Cancelled"
  shows "status (payments (fst (pay d userId pid body now nextId txId)) ! i)
           = status (payments d ! i)"
proof (cases "find_payment (payments d) userId pid")
  case None
  then show ?thesis by (simp add: pay_def)
next
  case (Some p)
  show ?thesis
  proof (cases "status p = Paid \<or> status p = Cancelled")
    case True
    then show ?thesis
      using pay_terminal [OF Some] by simp
  next
    case False
    then have n: "status p \<noteq> Paid" "status p \<noteq> Cancelled" by auto
    have "sp_id (payments d ! i) \<noteq> pid"
    proof
      assume "sp_id (payments d ! i) = pid"
      then have "p = payments d ! i"
        using found_is_nth [OF assms(1,2) Some] by simp
      then show False using assms(3) n by auto
    qed
    then show ?thesis
      unfolding pay_active_payments [OF Some n]
      using assms(2) by (simp add: nth_append mark_paid_def)
  qed
qed

lemma update_without_status_keeps:
  assumes "i < length ps" "pp_status patch = None"
  shows "status (fst (update_payment ps userId pid patch now) ! i) = status (ps ! i)"
  using assms
  by (cases "find_payment ps userId pid")
     (simp_all add: update_payment_def Let_def apply_patch_def or_old_def)


text \<open>
  With unique ids, settlement, cancellation, the overdue sweep and an update whose body
  has no \<open>status\<close> keep the status of every payment that is paid or cancelled.
\<close>

lemma guarded_operations_keep_terminal:
  assumes "distinct (map sp_id ps)" "i < length ps"
    and "status (ps ! i) = Paid \<or> status (ps ! i) = Cancelled"
  shows "status (payments (fst (pay \<lparr>payments = ps, ledger = l\<rparr> userId pid body now nextId txId)) ! i)
           = status (ps ! i)
       \<and> status (fst (cancel ps userId pid now) ! i) = status (ps ! i)
       \<and> status (markOverduePayments ps userId now ! i) = status (ps ! i)
       \<and> (pp_status patch = None \<longrightarrow>
            status (fst (update_payment ps userId pid patch now) ! i) = status (ps ! i))"
  using pay_keeps_terminal [of "\<lparr>payments = ps, ledger = l\<rparr>" i userId pid body now nextId txId]
    cancel_keeps_terminal [OF assms, of userId pid now]
    sweep_keeps_terminal [OF assms(2,3), of userId now]
    update_without_status_keeps [OF assms(2), of patch userId pid now]
    assms
  by simp

text \<open>An update whose body has a \<open>status\<close> writes it, whatever the stored status is.\<close>

lemma update_writes_status:
  assumes "i < length ps" "sp_id (ps ! i) = pid" "sp_userId (ps ! i) = userId"
    and "pp_status patch = Some st"
  shows "status (fst (update_payment ps userId pid patch now) ! i) = st"
proof -
  have "ps ! i \<in> set ps"
    using assms(1) by simp
  then have "find_payment ps userId pid \<noteq> None"
    using assms(2,3) by (auto simp: find_payment_def find_None_iff)
  then show ?thesis
    using assms by (auto simp: update_payment_def Let_def apply_patch_def or_old_def)
qed

lemma find_ex_debt:
  "find (\<lambda>d. debt_id d = ''d1'' \<and> debt_userId d = ''u1'') [ex_debt] = Some ex_debt"
  by (simp add: ex_debt_def)

lemma ex_debt_fields:
  "debt_id ex_debt = ''d1''" "debt_userId ex_debt = ''u1''" "principalAmount ex_debt = 1200"
  "totalInstallments ex_debt = Some 12" "startDate ex_debt = ''2025-01-01''"
  "debt_dueDate ex_debt = None"
  by (simp_all add: ex_debt_def)


lemma upt_0_12: "[0..<12] = [0, 1, 2, 3, 4, 5, 6, 7, 8, 9, 10, 11]"
  by code_simp

section \<open>Balance: the single-account read and the dashboard\<close>

text \<open>
  C1. The balance reported by the account reads is
  \<open>initialBalance + income - expense + transfers in - (transfers out + fee)\<close>.
  The account list computes exactly that (\<open>account_with_balance_spec\<close>, independent of
  row order by \<open>account_with_balance_perm\<close>, and \<open>initialBalance\<close> without entries by
  \<open>account_with_balance_no_entries\<close>). The single-account read takes no transfer rows
  at all: for account \<open>a1\<close> with initial balance 1000 and one outgoing transfer of 200
  with fee 5, the list reports 795, as the formula does, and the single read reports 1000.
\<close>

theorem single_account_read_omits_transfers:
  "accounts_get_one [ex_account_A] [] ''u1'' ''a1'' = Inr (ex_account_A, 1000)
   \<and> spec_balance narrowDebit [] [ex_transfer_AB] ''u1'' ex_account_A = 795
   \<and> av_balance (account_with_balance [] [ex_transfer_AB] ''u1'' ex_account_A) = 795"
  by (simp add: accounts_get_one_def spec_balance_def account_with_balance_def narrowDebit_def
      sum_amount_def sum_transfer_amount_def sum_transfer_amount_fee_def or_zero_def
      ex_account_A_def ex_transfer_AB_def)

text \<open>
  C2. The dashboard-wide balance subtracts the four outflow types where the account card
  subtracts \<open>expense\<close> only, and both modes include the transfer terms. The debit sets
  are as stated (\<open>calculateAccountBalance_debits\<close>), but \<open>calculateAccountBalance\<close>
  reads no transfer rows: on the same account and transfer the all-outflow formula gives
  795 and the dashboard gives 1000.
\<close>

theorem dashboard_balance_omits_transfers:
  "calculateAccountBalance [] ''a1'' ''u1'' 1000 = 1000
   \<and> spec_balance allOutflow [] [ex_transfer_AB] ''u1'' ex_account_A = 795"
  by (simp add: calculateAccountBalance_def spec_balance_def allOutflow_def
      sum_amount_def or_zero_def ex_account_A_def ex_transfer_AB_def)

text \<open>
  C9. The dashboard total is the sum of the account balances over the owner's accounts
  with \<open>isActive \<and> includeInTotal\<close>. The dashboard selects on owner and \<open>isActive\<close>
  (and the configured ids) and never reads \<open>includeInTotal\<close>: an active account with
  \<open>includeInTotal = false\<close> and initial balance 500 makes the dashboard total 500, where
  the specified total, and the total of the account list, is 0.
\<close>

theorem dashboard_total_ignores_includeInTotal:
  "dashboard_total_balance [ex_account_hidden] [] ''u1'' None = 500
   \<and> spec_total_balance allOutflow [ex_account_hidden] [] [] ''u1'' None = 0
   \<and> ar_totalBalance (accounts_get_list [ex_account_hidden] [] [] ''u1'' False) = 0"
  by (simp add: dashboard_total_balance_def dashboard_accounts_def calculateAccountBalance_def
      spec_total_balance_def accounts_get_list_def account_with_balance_def
      sum_amount_def sum_transfer_amount_def sum_transfer_amount_fee_def or_zero_def
      ex_account_hidden_def)

section \<open>Scheduled payments: settlement, sweep and terminal states\<close>

text \<open>
  C3 (as amended). Settling a payment that is paid or cancelled is rejected with
  \<open>InvalidTransition\<close> and leaves the stored state as it is. Settling a pending or
  overdue payment succeeds whenever no recurrence is to be created or the next due date
  is computed: the payment is marked paid; exactly one expense entry is appended to the
  ledger when the payment has an account assigned, and none otherwise; exactly one
  recurrence clone is appended when a recurrence is to be created, and none otherwise;
  nothing else changes. A settlement attempt that follows a successful one is rejected
  with \<open>InvalidTransition\<close> and changes nothing, so that after the two attempts there is
  one ledger entry (none without an account) and at most one clone.
\<close>

theorem settle_at_most_once:
  assumes "find_payment (payments d) userId pid = Some p"
  shows "(status p = Paid \<or> status p = Cancelled \<longrightarrow>
            pay d userId pid body now nextId txId = (d, Inl InvalidTransition))
       \<and> (status p = Pending \<or> status p = Overdue \<longrightarrow>
            (if isRecurring p \<and> createNextRecurrence body
             then truthy (recurringFrequency p) else None) = None \<longrightarrow>
            pay d userId pid body now nextId txId =
              (d\<lparr>payments := mark_paid (payments d) pid (paid_date body now)
                                 (paid_amount body p) now,
                  ledger := ledger d
                    @ (case truthy (sp_accountId p) of
                         None \<Rightarrow> []
                       | Some a \<Rightarrow> [settlement_transaction p userId txId a (paid_amount body p)
                                       (paid_date body now) now])\<rparr>,
               Inr \<lparr> pr_payment = p\<lparr>status := Paid, paidDate := Some (paid_date body now),
                                      paidAmount := Some (paid_amount body p)\<rparr>,
                     pr_nextPayment = None,
                     pr_transaction = (case truthy (sp_accountId p) of
                                         None \<Rightarrow> None | Some a \<Rightarrow> Some txId) \<rparr>))
       \<and> (status p = Pending \<or> status p = Overdue \<longrightarrow>
            (if isRecurring p \<and> createNextRecurrence body
             then truthy (recurringFrequency p) else None) = Some f \<longrightarrow>
            getNextDueDate (dueDate p) f = Some nd \<longrightarrow>
            pay d userId pid body now nextId txId =
              (d\<lparr>payments := mark_paid (payments d) pid (paid_date body now)
                                 (paid_amount body p) now
                               @ [next_payment p userId nextId nd now],
                  ledger := ledger d
                    @ (case truthy (sp_accountId p) of
                         None \<Rightarrow> []
                       | Some a \<Rightarrow> [settlement_transaction p userId txId a (paid_amount body p)
                                       (paid_date body now) now])\<rparr>,
               Inr \<lparr> pr_payment = p\<lparr>status := Paid, paidDate := Some (paid_date body now),
                                      paidAmount := Some (paid_amount body p)\<rparr>,
                     pr_nextPayment = Some (next_payment p userId nextId nd now),
                     pr_transaction = (case truthy (sp_accountId p) of
                                         None \<Rightarrow> None | Some a \<Rightarrow> Some txId) \<rparr>))
       \<and> (status p = Pending \<or> status p = Overdue \<longrightarrow>
            snd (pay d userId pid body now nextId txId) = Inr r \<longrightarrow>
            pay (fst (pay d userId pid body now nextId txId)) userId pid body' now' nextId' txId'
              = (fst (pay d userId pid body now nextId txId), Inl InvalidTransition))"
proof (intro conjI impI)
  assume "status p = Paid \<or> status p = Cancelled"
  with assms show "pay d userId pid body now nextId txId = (d, Inl InvalidTransition)"
    by (rule pay_terminal)
next
  assume a: "status p = Pending \<or> status p = Overdue"
    and r: "(if isRecurring p \<and> createNextRecurrence body
             then truthy (recurringFrequency p) else None) = None"
  from a have n: "status p \<noteq> Paid" "status p \<noteq> Cancelled" by auto
  show "pay d userId pid body now nextId txId =
              (d\<lparr>payments := mark_paid (payments d) pid (paid_date body now)
                                 (paid_amount body p) now,
                  ledger := ledger d
                    @ (case truthy (sp_accountId p) of
                         None \<Rightarrow> []
                       | Some a \<Rightarrow> [settlement_transaction p userId txId a (paid_amount body p)
                                       (paid_date body now) now])\<rparr>,
               Inr \<lparr> pr_payment = p\<lparr>status := Paid, paidDate := Some (paid_date body now),
                                      paidAmount := Some (paid_amount body p)\<rparr>,
                     pr_nextPayment = None,
                     pr_transaction = (case truthy (sp_accountId p) of
                                         None \<Rightarrow> None | Some a \<Rightarrow> Some txId) \<rparr>)"
    by (rule pay_without_recurrence [OF assms n r])
next
  assume a: "status p = Pending \<or> status p = Overdue"
    and r: "(if isRecurring p \<and> createNextRecurrence body
             then truthy (recurringFrequency p) else None) = Some f"
    and g: "getNextDueDate (dueDate p) f = Some nd"
  from a have n: "status p \<noteq> Paid" "status p \<noteq> Cancelled" by auto
  show "pay d userId pid body now nextId txId =
              (d\<lparr>payments := mark_paid (payments d) pid (paid_date body now)
                                 (paid_amount body p) now
                               @ [next_payment p userId nextId nd now],
                  ledger := ledger d
                    @ (case truthy (sp_accountId p) of
                         None \<Rightarrow> []
                       | Some a \<Rightarrow> [settlement_transaction p userId txId a (paid_amount body p)
                                       (paid_date body now) now])\<rparr>,
               Inr \<lparr> pr_payment = p\<lparr>status := Paid, paidDate := Some (paid_date body now),
                                      paidAmount := Some (paid_amount body p)\<rparr>,
                     pr_nextPayment = Some (next_payment p userId nextId nd now),
                     pr_transaction = (case truthy (sp_accountId p) of
                                         None \<Rightarrow> None | Some a \<Rightarrow> Some txId) \<rparr>)"
    by (rule pay_with_recurrence [OF assms n r g])
next
  assume a: "status p = Pending \<or> status p = Overdue"
  then have n: "status p \<noteq> Paid" "status p \<noteq> Cancelled" by auto
  show "pay (fst (pay d userId pid body now nextId txId)) userId pid body' now' nextId' txId'
          = (fst (pay d userId pid body now nextId txId), Inl InvalidTransition)"
    by (rule pay_second_attempt [OF assms n])
qed

text \<open>
  C3 as stated asks for exactly one ledger entry after two attempts. A one-off pending
  payment with no account assigned is settled without any ledger entry.
\<close>

theorem unlinked_payment_posts_no_entry:
  "snd (pay (fst (pay \<lparr>payments = [ex_payment_unlinked], ledger = []\<rparr>
                   ''u1'' ''p1'' ex_body ex_now ''p2'' ''t1''))
            ''u1'' ''p1'' ex_body ex_now ''p3'' ''t2'') = Inl InvalidTransition
   \<and> ledger (fst (pay (fst (pay \<lparr>payments = [ex_payment_unlinked], ledger = []\<rparr>
                              ''u1'' ''p1'' ex_body ex_now ''p2'' ''t1''))
                   ''u1'' ''p1'' ex_body ex_now ''p3'' ''t2'')) = []"
proof -
  let ?d = "\<lparr>payments = [ex_payment_unlinked], ledger = []\<rparr>"
  have f: "find_payment (payments ?d) ''u1'' ''p1'' = Some ex_payment_unlinked"
    by (simp add: find_payment_def ex_payment_unlinked_def ex_payment_def)
  have n: "status ex_payment_unlinked \<noteq> Paid" "status ex_payment_unlinked \<noteq> Cancelled"
    by (simp_all add: ex_payment_unlinked_def ex_payment_def)
  have t: "truthy (sp_accountId ex_payment_unlinked) = None"
    by (simp add: truthy_def ex_payment_unlinked_def)
  have l: "ledger (fst (pay ?d ''u1'' ''p1'' ex_body ex_now ''p2'' ''t1'')) = []"
    unfolding pay_active_ledger [OF f n] t by (simp split: sum.split)
  show ?thesis
    unfolding pay_second_attempt [OF f n] using l by simp
qed

text \<open>
  The rule at a recurring payment with an account (one entry, one clone, second attempt
  rejected), at a one-off payment with an account (one entry, no clone) and at a paid
  payment (rejected).
\<close>

theorem settle_at_most_once_witness:
  "find_payment (payments \<lparr>payments = [ex_payment], ledger = []\<rparr>) ''u1'' ''p1'' = Some ex_payment
   \<and> status ex_payment = Pending
   \<and> (if isRecurring ex_payment \<and> createNextRecurrence ex_body
       then truthy (recurringFrequency ex_payment) else None) = Some ''monthly''
   \<and> getNextDueDate (dueDate ex_payment) ''monthly'' = Some ''2025-03-03''
   \<and> pay \<lparr>payments = [ex_payment], ledger = []\<rparr> ''u1'' ''p1'' ex_body ex_now ''p2'' ''t1''
       = (\<lparr>payments = [ex_payment\<lparr>status := Paid, paidDate := Some ''2025-02-01'',
                                      paidAmount := Some 100, sp_updatedAt := ex_now\<rparr>,
                         next_payment ex_payment ''u1'' ''p2'' ''2025-03-03'' ex_now],
           ledger = [settlement_transaction ex_payment ''u1'' ''t1'' ''a1'' 100 ''2025-02-01''
                       ex_now]\<rparr>,
          Inr \<lparr> pr_payment = ex_payment\<lparr>status := Paid, paidDate := Some ''2025-02-01'',
                                          paidAmount := Some 100\<rparr>,
                pr_nextPayment = Some (next_payment ex_payment ''u1'' ''p2'' ''2025-03-03'' ex_now),
                pr_transaction = Some ''t1'' \<rparr>)
   \<and> pay (fst (pay \<lparr>payments = [ex_payment], ledger = []\<rparr> ''u1'' ''p1'' ex_body ex_now ''p2'' ''t1''))
         ''u1'' ''p1'' ex_body ex_now ''p3'' ''t2''
       = (fst (pay \<lparr>payments = [ex_payment], ledger = []\<rparr> ''u1'' ''p1'' ex_body ex_now ''p2'' ''t1''),
          Inl InvalidTransition)
   \<and> find_payment (payments \<lparr>payments = [ex_payment\<lparr>isRecurring := False\<rparr>], ledger = []\<rparr>)
         ''u1'' ''p1'' = Some (ex_payment\<lparr>isRecurring := False\<rparr>)
   \<and> (if isRecurring (ex_payment\<lparr>isRecurring := False\<rparr>) \<and> createNextRecurrence ex_body
       then truthy (recurringFrequency (ex_payment\<lparr>isRecurring := False\<rparr>)) else None) = None
   \<and> pay \<lparr>payments = [ex_payment\<lparr>isRecurring := False\<rparr>], ledger = []\<rparr>
         ''u1'' ''p1'' ex_body ex_now ''p2'' ''t1''
       = (\<lparr>payments = [ex_payment\<lparr>isRecurring := False, status := Paid,
                                      paidDate := Some ''2025-02-01'', paidAmount := Some 100,
                                      sp_updatedAt := ex_now\<rparr>],
           ledger = [settlement_transaction (ex_payment\<lparr>isRecurring := False\<rparr>) ''u1'' ''t1''
                       ''a1'' 100 ''2025-02-01'' ex_now]\<rparr>,
          Inr \<lparr> pr_payment = ex_payment\<lparr>isRecurring := False, status := Paid,
                                          paidDate := Some ''2025-02-01'',
                                          paidAmount := Some 100\<rparr>,
                pr_nextPayment = None, pr_transaction = Some ''t1'' \<rparr>)
   \<and> find_payment (payments \<lparr>payments = [ex_payment\<lparr>status := Paid\<rparr>], ledger = []\<rparr>)
         ''u1'' ''p1'' = Some (ex_payment\<lparr>status := Paid\<rparr>)
   \<and> pay \<lparr>payments = [ex_payment\<lparr>status := Paid\<rparr>], ledger = []\<rparr>
         ''u1'' ''p1'' ex_body ex_now ''p2'' ''t1''
       = (\<lparr>payments = [ex_payment\<lparr>status := Paid\<rparr>], ledger = []\<rparr>, Inl InvalidTransition)"
proof -
  have f: "find_payment (payments \<lparr>payments = [ex_payment], ledger = []\<rparr>) ''u1'' ''p1''
             = Some ex_payment"
    by (simp add: find_payment_def ex_payment_fields)
  have s: "status ex_payment = Pending"
    by (simp add: ex_payment_fields)
  have q: "(if isRecurring ex_payment \<and> createNextRecurrence ex_body
            then truthy (recurringFrequency ex_payment) else None) = Some ''monthly''"
    by (simp add: ex_payment_fields ex_body_def truthy_def)
  have g: "getNextDueDate (dueDate ex_payment) ''monthly'' = Some ''2025-03-03''"
    by (simp add: ex_payment_fields next_due_jan31_monthly)
  have pd: "paid_date ex_body ex_now = ''2025-02-01''"
    by (simp add: paid_date_def truthy_def ex_body_def date_part_ex_now)
  have pa: "paid_amount ex_body ex_payment = 100"
    "paid_amount ex_body (ex_payment\<lparr>isRecurring := False\<rparr>) = 100"
    by (simp_all add: paid_amount_def ex_body_def ex_payment_fields)
  have t: "truthy (sp_accountId ex_payment) = Some ''a1''"
    "truthy (sp_accountId (ex_payment\<lparr>isRecurring := False\<rparr>)) = Some ''a1''"
    by (simp_all add: truthy_def ex_payment_fields)
  have m: "mark_paid [ex_payment] ''p1'' ''2025-02-01'' 100 ex_now
             = [ex_payment\<lparr>status := Paid, paidDate := Some ''2025-02-01'', paidAmount := Some 100,
                            sp_updatedAt := ex_now\<rparr>]"
    "mark_paid [ex_payment\<lparr>isRecurring := False\<rparr>] ''p1'' ''2025-02-01'' 100 ex_now
             = [ex_payment\<lparr>isRecurring := False, status := Paid, paidDate := Some ''2025-02-01'',
                            paidAmount := Some 100, sp_updatedAt := ex_now\<rparr>]"
    by (simp_all add: mark_paid_def ex_payment_fields)
  note rule = settle_at_most_once [where d = "\<lparr>payments = [ex_payment], ledger = []\<rparr>"
        and userId = "''u1''" and pid = "''p1''" and p = ex_payment and body = ex_body
        and now = ex_now and nextId = "''p2''" and txId = "''t1''" and f = "''monthly''"
        and nd = "''2025-03-03''" and body' = ex_body and now' = ex_now and nextId' = "''p3''"
        and txId' = "''t2''"
        and r = "\<lparr> pr_payment = ex_payment\<lparr>status := Paid, paidDate := Some ''2025-02-01'',
                                                paidAmount := Some 100\<rparr>,
                     pr_nextPayment = Some (next_payment ex_payment ''u1'' ''p2'' ''2025-03-03'' ex_now),
                     pr_transaction = Some ''t1'' \<rparr>", OF f]
  have first: "pay \<lparr>payments = [ex_payment], ledger = []\<rparr> ''u1'' ''p1'' ex_body ex_now ''p2'' ''t1''
       = (\<lparr>payments = [ex_payment\<lparr>status := Paid, paidDate := Some ''2025-02-01'',
                                      paidAmount := Some 100, sp_updatedAt := ex_now\<rparr>,
                         next_payment ex_payment ''u1'' ''p2'' ''2025-03-03'' ex_now],
           ledger = [settlement_transaction ex_payment ''u1'' ''t1'' ''a1'' 100 ''2025-02-01''
                       ex_now]\<rparr>,
          Inr \<lparr> pr_payment = ex_payment\<lparr>status := Paid, paidDate := Some ''2025-02-01'',
                                          paidAmount := Some 100\<rparr>,
                pr_nextPayment = Some (next_payment ex_payment ''u1'' ''p2'' ''2025-03-03'' ex_now),
                pr_transaction = Some ''t1'' \<rparr>)"
    using rule [THEN conjunct2, THEN conjunct2, THEN conjunct1, rule_format, OF _ q g]
    by (simp add: s pd pa t m)
  have second: "pay (fst (pay \<lparr>payments = [ex_payment], ledger = []\<rparr> ''u1'' ''p1'' ex_body ex_now ''p2'' ''t1''))
         ''u1'' ''p1'' ex_body ex_now ''p3'' ''t2''
       = (fst (pay \<lparr>payments = [ex_payment], ledger = []\<rparr> ''u1'' ''p1'' ex_body ex_now ''p2'' ''t1''),
          Inl InvalidTransition)"
    by (rule rule [THEN conjunct2, THEN conjunct2, THEN conjunct2, rule_format])
       (simp_all add: s first)
  have f1: "find_payment (payments \<lparr>payments = [ex_payment\<lparr>isRecurring := False\<rparr>], ledger = []\<rparr>)
         ''u1'' ''p1'' = Some (ex_payment\<lparr>isRecurring := False\<rparr>)"
    by (simp add: find_payment_def ex_payment_fields)
  have q1: "(if isRecurring (ex_payment\<lparr>isRecurring := False\<rparr>) \<and> createNextRecurrence ex_body
       then truthy (recurringFrequency (ex_payment\<lparr>isRecurring := False\<rparr>)) else None) = None"
    by simp
  have one_off: "pay \<lparr>payments = [ex_payment\<lparr>isRecurring := False\<rparr>], ledger = []\<rparr>
         ''u1'' ''p1'' ex_body ex_now ''p2'' ''t1''
       = (\<lparr>payments = [ex_payment\<lparr>isRecurring := False, status := Paid,
                                      paidDate := Some ''2025-02-01'', paidAmount := Some 100,
                                      sp_updatedAt := ex_now\<rparr>],
           ledger = [settlement_transaction (ex_payment\<lparr>isRecurring := False\<rparr>) ''u1'' ''t1''
                       ''a1'' 100 ''2025-02-01'' ex_now]\<rparr>,
          Inr \<lparr> pr_payment = ex_payment\<lparr>isRecurring := False, status := Paid,
                                          paidDate := Some ''2025-02-01'',
                                          paidAmount := Some 100\<rparr>,
                pr_nextPayment = None, pr_transaction = Some ''t1'' \<rparr>)"
    using settle_at_most_once [where d = "\<lparr>payments = [ex_payment\<lparr>isRecurring := False\<rparr>], ledger = []\<rparr>"
        and userId = "''u1''" and pid = "''p1''" and p = "ex_payment\<lparr>isRecurring := False\<rparr>"
        and body = ex_body and now = ex_now and nextId = "''p2''" and txId = "''t1''",
        OF f1, THEN conjunct2, THEN conjunct1, rule_format, OF _ q1]
    by (simp add: s pd pa t m)
  have f2: "find_payment (payments \<lparr>payments = [ex_payment\<lparr>status := Paid\<rparr>], ledger = []\<rparr>)
         ''u1'' ''p1'' = Some (ex_payment\<lparr>status := Paid\<rparr>)"
    by (simp add: find_payment_def ex_payment_fields)
  have rejected: "pay \<lparr>payments = [ex_payment\<lparr>status := Paid\<rparr>], ledger = []\<rparr>
         ''u1'' ''p1'' ex_body ex_now ''p2'' ''t1''
       = (\<lparr>payments = [ex_payment\<lparr>status := Paid\<rparr>], ledger = []\<rparr>, Inl InvalidTransition)"
    using settle_at_most_once [where d = "\<lparr>payments = [ex_payment\<lparr>status := Paid\<rparr>], ledger = []\<rparr>"
        and userId = "''u1''" and pid = "''p1''" and p = "ex_payment\<lparr>status := Paid\<rparr>"
        and body = ex_body and now = ex_now and nextId = "''p2''" and txId = "''t1''",
        OF f2, THEN conjunct1, rule_format]
    by simp
  show ?thesis
    using f s q g first second f1 q1 one_off f2 rejected by (intro conjI)
qed

text \<open>
  C4. The overdue sweep turns exactly the rows of the requesting owner that are pending
  with \<open>dueDate \<le> today\<close> into overdue rows (stamping \<open>updatedAt\<close>), leaves every other
  row as it is, and a second sweep on the same day changes nothing more. The dashboard's
  inline sweep is the same update.
\<close>

theorem overdue_sweep:
  "length (markOverduePayments ps userId now) = length ps
   \<and> (\<forall>i < length ps.
        markOverduePayments ps userId now ! i =
          (if sp_userId (ps ! i) = userId \<and> status (ps ! i) = Pending
              \<and> str_le (dueDate (ps ! i)) (date_part now)
           then (ps ! i)\<lparr>status := Overdue, sp_updatedAt := now\<rparr> else ps ! i))
   \<and> (date_part now' = date_part now \<longrightarrow>
        markOverduePayments (markOverduePayments ps userId now) userId now'
          = markOverduePayments ps userId now)
   \<and> dashboard_mark_overdue ps userId now True = markOverduePayments ps userId now"
  using markOverdue_length markOverdue_nth markOverdue_idem
  by (simp add: dashboard_mark_overdue_def markOverduePayments_def)

theorem overdue_sweep_witness:
  "markOverduePayments
     [ex_payment, ex_payment\<lparr>sp_id := ''p2'', dueDate := ''2025-03-15''\<rparr>,
      ex_payment\<lparr>sp_id := ''p3'', sp_userId := ''u2''\<rparr>] ''u1'' ex_now
   = [ex_payment\<lparr>status := Overdue, sp_updatedAt := ex_now\<rparr>,
      ex_payment\<lparr>sp_id := ''p2'', dueDate := ''2025-03-15''\<rparr>,
      ex_payment\<lparr>sp_id := ''p3'', sp_userId := ''u2''\<rparr>]
   \<and> date_part ''2025-02-01T23:59:59.000Z'' = date_part ex_now
   \<and> markOverduePayments
        (markOverduePayments
           [ex_payment, ex_payment\<lparr>sp_id := ''p2'', dueDate := ''2025-03-15''\<rparr>,
            ex_payment\<lparr>sp_id := ''p3'', sp_userId := ''u2''\<rparr>] ''u1'' ex_now)
        ''u1'' ''2025-02-01T23:59:59.000Z''
      = markOverduePayments
          [ex_payment, ex_payment\<lparr>sp_id := ''p2'', dueDate := ''2025-03-15''\<rparr>,
           ex_payment\<lparr>sp_id := ''p3'', sp_userId := ''u2''\<rparr>] ''u1'' ex_now"
proof -
  have d: "date_part ''2025-02-01T23:59:59.000Z'' = date_part ex_now"
    by (simp add: date_part_def ex_now_def)
  have m: "markOverduePayments
     [ex_payment, ex_payment\<lparr>sp_id := ''p2'', dueDate := ''2025-03-15''\<rparr>,
      ex_payment\<lparr>sp_id := ''p3'', sp_userId := ''u2''\<rparr>] ''u1'' ex_now
   = [ex_payment\<lparr>status := Overdue, sp_updatedAt := ex_now\<rparr>,
      ex_payment\<lparr>sp_id := ''p2'', dueDate := ''2025-03-15''\<rparr>,
      ex_payment\<lparr>sp_id := ''p3'', sp_userId := ''u2''\<rparr>]"
    by (simp add: markOverduePayments_def date_part_ex_now ex_payment_fields)
  show ?thesis
    using overdue_sweep [where ps = "[ex_payment, ex_payment\<lparr>sp_id := ''p2'', dueDate := ''2025-03-15''\<rparr>,
           ex_payment\<lparr>sp_id := ''p3'', sp_userId := ''u2''\<rparr>]" and userId = "''u1''"
        and now = ex_now and now' = "''2025-02-01T23:59:59.000Z''"] d m
    by simp
qed

text \<open>
  C5. The claim has paid and cancelled as terminal states under every operation of the
  interface. Settlement and cancellation check the stored status before they write, and
  the sweep selects pending rows only. The update handler checks nothing: a body with a
  \<open>status\<close> field overwrites the stored status. So \<open>PATCH\<close> with \<open>status: "pending"\<close>
  reopens a paid payment and with \<open>status: "overdue"\<close> a cancelled one, where settlement
  and cancellation of the same paid payment are rejected; and a payment settled, reopened
  and settled again has two expense entries in the ledger and two recurrence clones.
\<close>

theorem update_reopens_paid_payment:
  "map status (fst (update_payment [ex_payment\<lparr>status := Paid\<rparr>] ''u1'' ''p1''
                      (ex_patch_status (Some Pending)) ex_now)) = [Pending]
   \<and> map status (fst (update_payment [ex_payment\<lparr>status := Cancelled\<rparr>] ''u1'' ''p1''
                         (ex_patch_status (Some Overdue)) ex_now)) = [Overdue]
   \<and> pay \<lparr>payments = [ex_payment\<lparr>status := Paid\<rparr>], ledger = []\<rparr>
         ''u1'' ''p1'' ex_body ex_now ''p2'' ''t1''
       = (\<lparr>payments = [ex_payment\<lparr>status := Paid\<rparr>], ledger = []\<rparr>, Inl InvalidTransition)
   \<and> cancel [ex_payment\<lparr>status := Paid\<rparr>] ''u1'' ''p1'' ex_now
       = ([ex_payment\<lparr>status := Paid\<rparr>], Inl InvalidTransition)
   \<and> map tx_id (ledger (fst (pay
        ((fst (pay \<lparr>payments = [ex_payment], ledger = []\<rparr>
                 ''u1'' ''p1'' ex_body ex_now ''p2'' ''t1''))
           \<lparr>payments := fst (update_payment
              (payments (fst (pay \<lparr>payments = [ex_payment], ledger = []\<rparr>
                                ''u1'' ''p1'' ex_body ex_now ''p2'' ''t1'')))
              ''u1'' ''p1'' (ex_patch_status (Some Pending)) ex_now)\<rparr>)
        ''u1'' ''p1'' ex_body ex_now ''p3'' ''t2''))) = [''t1'', ''t2'']
   \<and> map sp_id (payments (fst (pay
        ((fst (pay \<lparr>payments = [ex_payment], ledger = []\<rparr>
                 ''u1'' ''p1'' ex_body ex_now ''p2'' ''t1''))
           \<lparr>payments := fst (update_payment
              (payments (fst (pay \<lparr>payments = [ex_payment], ledger = []\<rparr>
                                ''u1'' ''p1'' ex_body ex_now ''p2'' ''t1'')))
              ''u1'' ''p1'' (ex_patch_status (Some Pending)) ex_now)\<rparr>)
        ''u1'' ''p1'' ex_body ex_now ''p3'' ''t2''))) = [''p1'', ''p2'', ''p3'']"
proof -
  have a: "map status (fst (update_payment [ex_payment\<lparr>status := Paid\<rparr>] ''u1'' ''p1''
                      (ex_patch_status (Some Pending)) ex_now)) = [Pending]"
    "map status (fst (update_payment [ex_payment\<lparr>status := Cancelled\<rparr>] ''u1'' ''p1''
                         (ex_patch_status (Some Overdue)) ex_now)) = [Overdue]"
    by (simp_all add: update_payment_def find_payment_def apply_patch_def or_old_def Let_def
        ex_patch_status_def ex_payment_fields)
  have b: "pay \<lparr>payments = [ex_payment\<lparr>status := Paid\<rparr>], ledger = []\<rparr>
         ''u1'' ''p1'' ex_body ex_now ''p2'' ''t1''
       = (\<lparr>payments = [ex_payment\<lparr>status := Paid\<rparr>], ledger = []\<rparr>, Inl InvalidTransition)"
    by (simp add: pay_def find_payment_def ex_payment_fields)
  have c: "cancel [ex_payment\<lparr>status := Paid\<rparr>] ''u1'' ''p1'' ex_now
       = ([ex_payment\<lparr>status := Paid\<rparr>], Inl InvalidTransition)"
    by (simp add: cancel_def find_payment_def ex_payment_fields)
  let ?d1 = "fst (pay \<lparr>payments = [ex_payment], ledger = []\<rparr>
                    ''u1'' ''p1'' ex_body ex_now ''p2'' ''t1'')"
  let ?q = "ex_payment\<lparr>status := Pending, paidDate := Some ''2025-02-01'',
                        paidAmount := Some 100, sp_updatedAt := ex_now\<rparr>"
  let ?c = "next_payment ex_payment ''u1'' ''p2'' ''2025-03-03'' ex_now"
  have q: "(if isRecurring ex_payment \<and> createNextRecurrence ex_body
            then truthy (recurringFrequency ex_payment) else None) = Some ''monthly''"
    by (simp add: ex_payment_fields ex_body_def truthy_def)
  have g: "getNextDueDate (dueDate ex_payment) ''monthly'' = Some ''2025-03-03''"
    by (simp add: ex_payment_fields next_due_jan31_monthly)
  have pd: "paid_date ex_body ex_now = ''2025-02-01''"
    by (simp add: paid_date_def truthy_def ex_body_def date_part_ex_now)
  have pa: "paid_amount ex_body ex_payment = 100" "paid_amount ex_body ?q = 100"
    by (simp_all add: paid_amount_def ex_body_def ex_payment_fields)
  have f: "find_payment (payments \<lparr>payments = [ex_payment], ledger = []\<rparr>) ''u1'' ''p1''
             = Some ex_payment"
    by (simp add: find_payment_def ex_payment_fields)
  have d1: "?d1 = \<lparr>payments = [ex_payment\<lparr>status := Paid, paidDate := Some ''2025-02-01'',
                                 paidAmount := Some 100, sp_updatedAt := ex_now\<rparr>, ?c],
                   ledger = [settlement_transaction ex_payment ''u1'' ''t1'' ''a1'' 100
                               ''2025-02-01'' ex_now]\<rparr>"
    by (simp add: pay_with_recurrence [OF f _ _ q g] ex_payment_fields pd pa truthy_def
        mark_paid_def)
  have u: "fst (update_payment (payments ?d1) ''u1'' ''p1'' (ex_patch_status (Some Pending)) ex_now)
             = [?q, ?c]"
    unfolding d1
    by (simp add: update_payment_def find_payment_def apply_patch_def or_old_def Let_def
        ex_patch_status_def ex_payment_fields next_payment_def)
  let ?d2 = "\<lparr>payments = [?q, ?c],
              ledger = [settlement_transaction ex_payment ''u1'' ''t1'' ''a1'' 100
                          ''2025-02-01'' ex_now]\<rparr>"
  have d2: "?d1\<lparr>payments := fst (update_payment (payments ?d1) ''u1'' ''p1''
                                   (ex_patch_status (Some Pending)) ex_now)\<rparr> = ?d2"
    unfolding u by (simp add: d1)
  have f2: "find_payment (payments ?d2) ''u1'' ''p1'' = Some ?q"
    by (simp add: find_payment_def ex_payment_fields)
  have q2: "(if isRecurring ?q \<and> createNextRecurrence ex_body
             then truthy (recurringFrequency ?q) else None) = Some ''monthly''"
    by (simp add: ex_payment_fields ex_body_def truthy_def)
  have g2: "getNextDueDate (dueDate ?q) ''monthly'' = Some ''2025-03-03''"
    by (simp add: ex_payment_fields next_due_jan31_monthly)
  have n2: "status ?q \<noteq> Paid" "status ?q \<noteq> Cancelled"
    by simp_all
  have e: "map tx_id (ledger (fst (pay ?d2 ''u1'' ''p1'' ex_body ex_now ''p3'' ''t2'')))
             = [''t1'', ''t2'']"
    "map sp_id (payments (fst (pay ?d2 ''u1'' ''p1'' ex_body ex_now ''p3'' ''t2'')))
             = [''p1'', ''p2'', ''p3'']"
    unfolding pay_with_recurrence [OF f2 n2 q2 g2]
    by (simp_all add: ex_payment_fields truthy_def settlement_transaction_def mark_paid_def
        next_payment_def)
  show ?thesis
    unfolding d2 using a b c e by simp
qed

section \<open>Recurrence dates\<close>

text \<open>
  C7 (as amended). Take a due date that reads as day \<open>d\<close> of month \<open>m\<close> of year \<open>y\<close>
  (the date the string denotes, a day the month lacks being carried into the next
  month), with the year within 270000 years of the year 0. Weekly is the date 7 days
  later, biweekly the date 14 days later. Monthly, quarterly and yearly take day \<open>d\<close> of
  the month 1 or 3 months later, or of the same month one year later: the same day of that
  month when that month has a day \<open>d\<close>, and otherwise the date as many days into the
  month after it as \<open>d\<close> exceeds its length. In particular 2024-02-15 yearly gives
  2025-02-15, and 2025-01-31 monthly gives 2025-03-03.
\<close>

theorem next_due_date_rule:
  assumes "date_parse s = Some z"
    and "- 270000 \<le> getFullYear z" "getFullYear z \<le> 270000"
  shows "(case date_fields s of
            None \<Rightarrow> False
          | Some (y, m, d) \<Rightarrow>
              (getFullYear z, getMonth z, getDate z) = carried_date y (m - 1) d)
       \<and> getNextDueDate s ''weekly'' = Some (toISODate (z + 7))
       \<and> getNextDueDate s ''biweekly'' = Some (toISODate (z + 14))
       \<and> getNextDueDate s ''monthly''
           = Some (iso_date (carried_date (getFullYear z) (getMonth z + 1) (getDate z)))
       \<and> getNextDueDate s ''quarterly''
           = Some (iso_date (carried_date (getFullYear z) (getMonth z + 3) (getDate z)))
       \<and> getNextDueDate s ''yearly''
           = Some (iso_date (carried_date (getFullYear z + 1) (getMonth z) (getDate z)))
       \<and> getNextDueDate ''2024-02-15'' ''yearly'' = Some ''2025-02-15''
       \<and> getNextDueDate ''2025-01-31'' ''monthly'' = Some ''2025-03-03''"
proof -
  have w: "getNextDueDate s ''weekly'' = Some (toISODate (z + 7))"
    using advance_by_days [OF assms, of 7] by (simp add: getNextDueDate_def assms(1))
  have b: "getNextDueDate s ''biweekly'' = Some (toISODate (z + 14))"
    using advance_by_days [OF assms, of 14] by (simp add: getNextDueDate_def assms(1))
  have m: "getNextDueDate s ''monthly''
           = Some (iso_date (carried_date (getFullYear z) (getMonth z + 1) (getDate z)))"
    using advance_by_months [OF assms(2,3), of 1] by (simp add: getNextDueDate_def assms(1))
  have q: "getNextDueDate s ''quarterly''
           = Some (iso_date (carried_date (getFullYear z) (getMonth z + 3) (getDate z)))"
    using advance_by_months [OF assms(2,3), of 3] by (simp add: getNextDueDate_def assms(1))
  have y: "getNextDueDate s ''yearly''
           = Some (iso_date (carried_date (getFullYear z + 1) (getMonth z) (getDate z)))"
    using advance_by_year [OF assms(2,3)] by (simp add: getNextDueDate_def assms(1))
  show ?thesis
    using parsed_date_fields [OF assms(1)] w b m q y next_due_feb15_yearly
      next_due_jan31_monthly
    by simp
qed

text \<open>
  C7 as stated has 2025-01-31 advance to a date of the next month. The result is a
  calendar date, but of March: February is skipped.
\<close>

theorem next_due_jan31_skips_february:
  "getNextDueDate ''2025-01-31'' ''monthly'' = Some ''2025-03-03''
   \<and> map_option (take 7) (getNextDueDate ''2025-01-31'' ''monthly'') \<noteq> Some ''2025-02''"
  by (simp add: next_due_jan31_monthly)

text \<open>
  The rule at 2025-03-31: April and June have 30 days, so the monthly and the quarterly
  advance run on to the first of May and of July.
\<close>

theorem next_due_date_rule_witness:
  "date_parse ''2025-03-31'' = Some (make_day 2025 2 31)
   \<and> - 270000 \<le> getFullYear (make_day 2025 2 31)
   \<and> getFullYear (make_day 2025 2 31) \<le> 270000
   \<and> (getFullYear (make_day 2025 2 31), getMonth (make_day 2025 2 31),
       getDate (make_day 2025 2 31)) = (2025, 2, 31)
   \<and> getNextDueDate ''2025-03-31'' ''weekly'' = Some ''2025-04-07''
   \<and> getNextDueDate ''2025-03-31'' ''biweekly'' = Some ''2025-04-14''
   \<and> getNextDueDate ''2025-03-31'' ''monthly'' = Some ''2025-05-01''
   \<and> getNextDueDate ''2025-03-31'' ''quarterly'' = Some ''2025-07-01''
   \<and> getNextDueDate ''2025-03-31'' ''yearly'' = Some ''2026-03-31''"
proof -
  have a: "make_day 2025 2 31 + 7 = make_day 2025 3 7"
    "make_day 2025 2 31 + 14 = make_day 2025 3 14"
    by (simp_all add: make_day_def month_start_def)
  have v: "valid_date 2025 3 7" "valid_date 2025 3 14"
    by (simp_all add: valid_date_def days_in_month_def)
  have i: "toISODate (make_day 2025 3 7) = ''2025-04-07''"
    "toISODate (make_day 2025 3 14) = ''2025-04-14''"
    by (simp_all add: toISODate_make_day v pads)
  show ?thesis
    using next_due_date_rule [of "''2025-03-31''" "make_day 2025 2 31"]
    by (simp add: parse_2025_03_31 civil_2025_03_31 date_fields_examples carried_examples
        iso_examples a i)
qed

section \<open>Bulk generation from a debt\<close>

text \<open>
  C8. For a debt of the owner with principal 1200, 12 installments, start date
  2025-01-01 and no due date, the bulk generation appends, in one batch, 12 scheduled
  payments of amount 100, due on the first day of the 12 consecutive months from January
  2025, each pending, of priority high, linked to the debt and to no installment row. The
  rows already stored are untouched.
\<close>

theorem debt_installments_scenario:
  "snd (from_debt [ex_debt] ps ''u1'' ''d1'' now uuid)
     = Inr (drop (length ps) (fst (from_debt [ex_debt] ps ''u1'' ''d1'' now uuid)))
   \<and> take (length ps) (fst (from_debt [ex_debt] ps ''u1'' ''d1'' now uuid)) = ps
   \<and> length (fst (from_debt [ex_debt] ps ''u1'' ''d1'' now uuid)) = length ps + 12
   \<and> map dueDate (drop (length ps) (fst (from_debt [ex_debt] ps ''u1'' ''d1'' now uuid)))
       = [''2025-01-01'', ''2025-02-01'', ''2025-03-01'', ''2025-04-01'', ''2025-05-01'',
          ''2025-06-01'', ''2025-07-01'', ''2025-08-01'', ''2025-09-01'', ''2025-10-01'',
          ''2025-11-01'', ''2025-12-01'']
   \<and> list_all (\<lambda>p. sp_amount p = 100 \<and> status p = Pending \<and> priority p = High
                     \<and> sp_debtId p = Some ''d1'' \<and> debtInstallmentId p = None
                     \<and> sp_userId p = ''u1'')
        (drop (length ps) (fst (from_debt [ex_debt] ps ''u1'' ''d1'' now uuid)))"
proof -
  have g: "getMonth (make_day 2025 0 1) = 0" "getDate (make_day 2025 0 1) = 1"
    "getFullYear (make_day 2025 0 1) = 2025"
    by (rule civil_2025_01_01)+
  have d: "toISODate (make_day 2025 m 1) = ''2025-'' @ pad_digits 2 (nat (m + 1)) @ ''-01''"
    if "0 \<le> m" "m \<le> 11" for m
    using that by (simp add: toISODate_make_day valid_date_def days_in_month_def pads)
  show ?thesis
    by (simp add: from_debt_def find_ex_debt ex_debt_fields truthy_def parse_2025_01_01
        g setMonth_def upt_0_12 installment_payment_def d pads Let_def in_date_range_2025)
qed

section \<open>Progress\<close>

text \<open>
  C6 (as amended). For a target \<open>> 0\<close> and an accumulated amount \<open>\<ge> 0\<close>, the progress
  reported by the goal, debt and loan reads is \<open>min(100, accumulated / target * 100)\<close>: it
  lies between 0 and 100 and is 100 exactly when the accumulated amount has reached the
  target. The goal widget of the dashboard reports an integer percentage: it is at least 0;
  while the accumulated amount is at most the target it is the percentage rounded to the
  nearest integer, at most 100; and it is at least 100 once the accumulated amount has
  reached the target.
\<close>

theorem progress_clamp:
  "(0 < targetAmount g \<and> 0 \<le> pj_current (goal_projection txs userId g) \<longrightarrow>
      pj_progress (goal_projection txs userId g)
        = Some (spec_progress (targetAmount g) (pj_current (goal_projection txs userId g)))
    \<and> 0 \<le> spec_progress (targetAmount g) (pj_current (goal_projection txs userId g))
    \<and> spec_progress (targetAmount g) (pj_current (goal_projection txs userId g)) \<le> 100
    \<and> (spec_progress (targetAmount g) (pj_current (goal_projection txs userId g)) = 100
         \<longleftrightarrow> targetAmount g \<le> pj_current (goal_projection txs userId g)))
   \<and> (0 < principalAmount d \<and> 0 \<le> pj_current (debt_projection txs userId d) \<longrightarrow>
      pj_progress (debt_projection txs userId d)
        = Some (spec_progress (principalAmount d) (pj_current (debt_projection txs userId d)))
    \<and> 0 \<le> spec_progress (principalAmount d) (pj_current (debt_projection txs userId d))
    \<and> spec_progress (principalAmount d) (pj_current (debt_projection txs userId d)) \<le> 100
    \<and> (spec_progress (principalAmount d) (pj_current (debt_projection txs userId d)) = 100
         \<longleftrightarrow> principalAmount d \<le> pj_current (debt_projection txs userId d)))
   \<and> (0 < loan_principalAmount l \<and> 0 \<le> pj_current (loan_projection txs userId l) \<longrightarrow>
      pj_progress (loan_projection txs userId l)
        = Some (spec_progress (loan_principalAmount l) (pj_current (loan_projection txs userId l)))
    \<and> 0 \<le> spec_progress (loan_principalAmount l) (pj_current (loan_projection txs userId l))
    \<and> spec_progress (loan_principalAmount l) (pj_current (loan_projection txs userId l)) \<le> 100
    \<and> (spec_progress (loan_principalAmount l) (pj_current (loan_projection txs userId l)) = 100
         \<longleftrightarrow> loan_principalAmount l \<le> pj_current (loan_projection txs userId l)))
   \<and> (0 < targetAmount g \<and> 0 \<le> dg_currentAmount (dashboard_goal_projection txs userId g) \<longrightarrow>
      (case dg_progress (dashboard_goal_projection txs userId g) of
         None \<Rightarrow> False
       | Some p \<Rightarrow>
           0 \<le> p
         \<and> (dg_currentAmount (dashboard_goal_projection txs userId g) \<le> targetAmount g \<longrightarrow>
              p \<le> 100
            \<and> \<bar>real_of_int p - dg_currentAmount (dashboard_goal_projection txs userId g)
                                  / targetAmount g * 100\<bar> \<le> 1 / 2)
         \<and> (targetAmount g \<le> dg_currentAmount (dashboard_goal_projection txs userId g) \<longrightarrow>
              100 \<le> p)))"
proof (intro conjI impI; (elim conjE)?)
  assume a: "0 < targetAmount g" "0 \<le> pj_current (goal_projection txs userId g)"
  show "pj_progress (goal_projection txs userId g)
        = Some (spec_progress (targetAmount g) (pj_current (goal_projection txs userId g)))"
    by (rule goal_progress_spec [OF a(1)])
  show "0 \<le> spec_progress (targetAmount g) (pj_current (goal_projection txs userId g))"
    "spec_progress (targetAmount g) (pj_current (goal_projection txs userId g)) \<le> 100"
    "spec_progress (targetAmount g) (pj_current (goal_projection txs userId g)) = 100
         \<longleftrightarrow> targetAmount g \<le> pj_current (goal_projection txs userId g)"
    by (rule spec_progress_clamp [OF a])+
next
  assume a: "0 < principalAmount d" "0 \<le> pj_current (debt_projection txs userId d)"
  show "pj_progress (debt_projection txs userId d)
        = Some (spec_progress (principalAmount d) (pj_current (debt_projection txs userId d)))"
    by (rule debt_progress_spec [OF a(1)])
  show "0 \<le> spec_progress (principalAmount d) (pj_current (debt_projection txs userId d))"
    "spec_progress (principalAmount d) (pj_current (debt_projection txs userId d)) \<le> 100"
    "spec_progress (principalAmount d) (pj_current (debt_projection txs userId d)) = 100
         \<longleftrightarrow> principalAmount d \<le> pj_current (debt_projection txs userId d)"
    by (rule spec_progress_clamp [OF a])+
next
  assume a: "0 < loan_principalAmount l" "0 \<le> pj_current (loan_projection txs userId l)"
  show "pj_progress (loan_projection txs userId l)
        = Some (spec_progress (loan_principalAmount l) (pj_current (loan_projection txs userId l)))"
    by (rule loan_progress_spec [OF a(1)])
  show "0 \<le> spec_progress (loan_principalAmount l) (pj_current (loan_projection txs userId l))"
    "spec_progress (loan_principalAmount l) (pj_current (loan_projection txs userId l)) \<le> 100"
    "spec_progress (loan_principalAmount l) (pj_current (loan_projection txs userId l)) = 100
         \<longleftrightarrow> loan_principalAmount l \<le> pj_current (loan_projection txs userId l)"
    by (rule spec_progress_clamp [OF a])+
next
  assume a: "0 < targetAmount g" "0 \<le> dg_currentAmount (dashboard_goal_projection txs userId g)"
  let ?c = "dg_currentAmount (dashboard_goal_projection txs userId g)"
  let ?p = "math_round (?c / targetAmount g * 100)"
  have e: "dg_progress (dashboard_goal_projection txs userId g) = Some ?p"
    by (rule dashboard_progress_round(1) [OF a])
  have lo: "0 \<le> ?p"
    by (rule dashboard_progress_round(2) [OF a])
  have hi: "?p \<le> 100" if "?c \<le> targetAmount g"
  proof -
    have "?c / targetAmount g * 100 \<le> 100"
      using that a(1) by (simp add: field_simps)
    then have "?p \<le> math_round 100"
      by (rule math_round_mono)
    then show ?thesis
      using math_round_int [of 100] by simp
  qed
  have near: "\<bar>real_of_int ?p - ?c / targetAmount g * 100\<bar> \<le> 1 / 2"
    by (rule math_round_bounds)
  have reach: "100 \<le> ?p" if "targetAmount g \<le> ?c"
    using that by (rule dashboard_progress_round(3) [OF a])
  show "case dg_progress (dashboard_goal_projection txs userId g) of
         None \<Rightarrow> False
       | Some p \<Rightarrow>
           0 \<le> p
         \<and> (?c \<le> targetAmount g \<longrightarrow>
              p \<le> 100 \<and> \<bar>real_of_int p - ?c / targetAmount g * 100\<bar> \<le> 1 / 2)
         \<and> (targetAmount g \<le> ?c \<longrightarrow> 100 \<le> p)"
    unfolding e using lo hi near reach by simp
qed

text \<open>
  C6 as stated has progress 100 only when the accumulated amount has reached the target.
  The dashboard rounds: 996 of 1000 is reported as 100.
\<close>

theorem dashboard_progress_rounds_to_100:
  "dg_currentAmount (dashboard_goal_projection [ex_contribution ''t1'' 996] ''u1'' (ex_goal 1000)) = 996
   \<and> targetAmount (ex_goal 1000) = 1000
   \<and> dg_progress (dashboard_goal_projection [ex_contribution ''t1'' 996] ''u1'' (ex_goal 1000))
       = Some 100"
  by (simp add: dashboard_goal_projection_def ex_goal_fields ex_goal_sum or_zero_def
      percentage_def json_rounded_def Let_def math_round_examples)

theorem progress_clamp_witness:
  "0 < targetAmount (ex_goal 5000)
   \<and> pj_current (goal_projection [ex_contribution ''t1'' 1200, ex_contribution ''t2'' 800]
                   ''u1'' (ex_goal 5000)) = 2000
   \<and> pj_remaining (goal_projection [ex_contribution ''t1'' 1200, ex_contribution ''t2'' 800]
                     ''u1'' (ex_goal 5000)) = 3000
   \<and> pj_progress (goal_projection [ex_contribution ''t1'' 1200, ex_contribution ''t2'' 800]
                    ''u1'' (ex_goal 5000)) = Some 40
   \<and> dg_progress (dashboard_goal_projection [ex_contribution ''t1'' 1200, ex_contribution ''t2'' 800]
                    ''u1'' (ex_goal 5000)) = Some 40"
proof -
  have c: "pj_current (goal_projection [ex_contribution ''t1'' 1200, ex_contribution ''t2'' 800]
                   ''u1'' (ex_goal 5000)) = 2000"
    "pj_remaining (goal_projection [ex_contribution ''t1'' 1200, ex_contribution ''t2'' 800]
                     ''u1'' (ex_goal 5000)) = 3000"
    by (simp_all add: goal_projection_def ex_goal_fields ex_goal_sum or_zero_def Let_def)
  have d: "dg_currentAmount (dashboard_goal_projection
             [ex_contribution ''t1'' 1200, ex_contribution ''t2'' 800] ''u1'' (ex_goal 5000)) = 2000"
    by (simp add: dashboard_goal_projection_def ex_goal_fields ex_goal_sum or_zero_def Let_def)
  have s: "spec_progress 5000 2000 = 40"
    by (simp add: spec_progress_def)
  have dp: "dg_progress (dashboard_goal_projection
              [ex_contribution ''t1'' 1200, ex_contribution ''t2'' 800] ''u1'' (ex_goal 5000))
            = Some 40"
    by (simp add: dashboard_goal_projection_def ex_goal_fields ex_goal_sum or_zero_def
        percentage_def json_rounded_def Let_def math_round_examples)
  show ?thesis
    using progress_clamp [of "ex_goal 5000" "[ex_contribution ''t1'' 1200, ex_contribution ''t2'' 800]"
        "''u1''"]
    by (simp add: c d dp ex_goal_fields s)
qed

section \<open>Owners do not interfere\<close>

text \<open>
  C10. Take two stores whose tables hold the same rows of owner \<open>u\<close> and differ in any
  way on the rows of other owners. Every value derived for \<open>u\<close> is the same over both:
  the account list with its balances and total, the single-account read, the dashboard
  balance of an account and the dashboard total, the period totals, and the goal, debt
  and loan projections.
\<close>

theorem owner_noninterference:
  assumes "rows_of acc_userId u accs = rows_of acc_userId u accs'"
    and "rows_of tx_userId u txs = rows_of tx_userId u txs'"
    and "rows_of tr_userId u trs = rows_of tr_userId u trs'"
    and "rows_of debt_userId u ds = rows_of debt_userId u ds'"
    and "rows_of loan_userId u ls = rows_of loan_userId u ls'"
    and "rows_of goal_userId u gs = rows_of goal_userId u gs'"
  shows "accounts_get_list accs txs trs u inc = accounts_get_list accs' txs' trs' u inc
       \<and> accounts_get_one accs txs u aid = accounts_get_one accs' txs' u aid
       \<and> calculateAccountBalance txs aid u b = calculateAccountBalance txs' aid u b
       \<and> dashboard_total_balance accs txs u ids = dashboard_total_balance accs' txs' u ids
       \<and> period_total txs u ty rangeStart rangeEnd = period_total txs' u ty rangeStart rangeEnd
       \<and> goals_get_list gs txs u incl = goals_get_list gs' txs' u incl
       \<and> dashboard_goal_projection txs u g = dashboard_goal_projection txs' u g
       \<and> debts_get_list ds txs u st = debts_get_list ds' txs' u st
       \<and> loans_get_list ls txs u st = loans_get_list ls' txs' u st"
proof (intro conjI)
  show "accounts_get_list accs txs trs u inc = accounts_get_list accs' txs' trs' u inc"
    using accounts_get_list_rows_of [of u accs txs trs inc]
      accounts_get_list_rows_of [of u accs' txs' trs' inc] assms(1-3) by simp
  show "accounts_get_one accs txs u aid = accounts_get_one accs' txs' u aid"
    using accounts_get_one_rows_of [of u accs txs aid]
      accounts_get_one_rows_of [of u accs' txs' aid] assms(1,2) by simp
  show "calculateAccountBalance txs aid u b = calculateAccountBalance txs' aid u b"
    using calculateAccountBalance_rows_of [of u txs aid b]
      calculateAccountBalance_rows_of [of u txs' aid b] assms(2) by simp
  show "dashboard_total_balance accs txs u ids = dashboard_total_balance accs' txs' u ids"
    using dashboard_total_rows_of [of u accs txs ids]
      dashboard_total_rows_of [of u accs' txs' ids] assms(1,2) by simp
  show "period_total txs u ty rangeStart rangeEnd = period_total txs' u ty rangeStart rangeEnd"
    using period_total_rows_of [of u txs ty rangeStart rangeEnd]
      period_total_rows_of [of u txs' ty rangeStart rangeEnd] assms(2) by simp
  show "goals_get_list gs txs u incl = goals_get_list gs' txs' u incl"
    using goals_get_list_rows_of [of u gs txs incl]
      goals_get_list_rows_of [of u gs' txs' incl] assms(2,6) by simp
  show "dashboard_goal_projection txs u g = dashboard_goal_projection txs' u g"
    using goal_projection_rows_of(2) [of u txs g]
      goal_projection_rows_of(2) [of u txs' g] assms(2) by simp
  show "debts_get_list ds txs u st = debts_get_list ds' txs' u st"
    using debts_get_list_rows_of [of u ds txs st]
      debts_get_list_rows_of [of u ds' txs' st] assms(2,4) by simp
  show "loans_get_list ls txs u st = loans_get_list ls' txs' u st"
    using loans_get_list_rows_of [of u ls txs st]
      loans_get_list_rows_of [of u ls' txs' st] assms(2,5) by simp
qed

theorem owner_noninterference_witness:
  "rows_of acc_userId ''u1'' [ex_account_A] = rows_of acc_userId ''u1'' [ex_account_other, ex_account_A]
   \<and> rows_of tx_userId ''u1'' [ex_contribution ''t1'' 300]
       = rows_of tx_userId ''u1'' [ex_foreign_income, ex_contribution ''t1'' 300]
   \<and> rows_of tr_userId ''u1'' [ex_transfer_AB]
       = rows_of tr_userId ''u1'' [ex_transfer_AB, ex_foreign_transfer]
   \<and> accounts_get_list [ex_account_other, ex_account_A]
        [ex_foreign_income, ex_contribution ''t1'' 300] [ex_transfer_AB, ex_foreign_transfer]
        ''u1'' False
       = accounts_get_list [ex_account_A] [ex_contribution ''t1'' 300] [ex_transfer_AB] ''u1'' False
   \<and> map av_balance (ar_accounts (accounts_get_list [ex_account_other, ex_account_A]
        [ex_foreign_income, ex_contribution ''t1'' 300] [ex_transfer_AB, ex_foreign_transfer]
        ''u1'' False)) = [795]
   \<and> dashboard_total_balance [ex_account_other, ex_account_A]
        [ex_foreign_income, ex_contribution ''t1'' 300] ''u1'' None = 700
   \<and> dg_currentAmount (dashboard_goal_projection [ex_foreign_income, ex_contribution ''t1'' 300]
        ''u1'' (ex_goal 1000)) = 300"
proof -
  have r: "rows_of acc_userId ''u1'' [ex_account_A]
             = rows_of acc_userId ''u1'' [ex_account_other, ex_account_A]"
    "rows_of tx_userId ''u1'' [ex_contribution ''t1'' 300]
       = rows_of tx_userId ''u1'' [ex_foreign_income, ex_contribution ''t1'' 300]"
    "rows_of tr_userId ''u1'' [ex_transfer_AB]
       = rows_of tr_userId ''u1'' [ex_transfer_AB, ex_foreign_transfer]"
    by (simp_all add: rows_of_def ex_account_A_def ex_account_other_def ex_contribution_def
        ex_foreign_income_def ex_transfer_AB_def ex_foreign_transfer_def)
  have e: "rows_of debt_userId ''u1'' ([] :: debt list) = rows_of debt_userId ''u1'' []"
    "rows_of loan_userId ''u1'' ([] :: loan list) = rows_of loan_userId ''u1'' []"
    "rows_of goal_userId ''u1'' ([] :: goal list) = rows_of goal_userId ''u1'' []"
    by simp_all
  have v: "map av_balance (ar_accounts (accounts_get_list [ex_account_A]
             [ex_contribution ''t1'' 300] [ex_transfer_AB] ''u1'' False)) = [795]"
    by (simp add: accounts_get_list_def account_with_balance_def sum_amount_def
        sum_transfer_amount_def sum_transfer_amount_fee_def or_zero_def Let_def
        ex_account_A_def ex_contribution_def ex_transfer_AB_def)
  have t: "dashboard_total_balance [ex_account_A] [ex_contribution ''t1'' 300] ''u1'' None = 700"
    by (simp add: dashboard_total_balance_def dashboard_accounts_def calculateAccountBalance_def
        sum_amount_def or_zero_def ex_account_A_def ex_contribution_def)
  have g: "dg_currentAmount (dashboard_goal_projection [ex_contribution ''t1'' 300]
        ''u1'' (ex_goal 1000)) = 300"
    by (simp add: dashboard_goal_projection_def sum_amount_def or_zero_def Let_def
        ex_goal_def ex_contribution_def)
  show ?thesis
    using owner_noninterference [OF r e, where inc = False and ids = None and g = "ex_goal 1000"
        and aid = "''a1''" and b = 0 and ty = Income and rangeStart = "[]" and rangeEnd = "[]"
        and incl = False and st = None] v t g
    by (simp add: r)
qed

end
